theory Spec2Isabelle
  imports Main "HOL-Library.Multiset"
begin

section \<open>The falling-block engine of src/components/TetrisExperience.tsx\<close>

text \<open>
  A shallow embedding of the pure part of the component: the shape and kick tables, the
  board helpers, the kick resolver, the queue refill and the reducer. JavaScript numbers
  are modelled as \<open>int\<close> (the engine only ever adds and multiplies integers), arrays as
  lists, \<open>null\<close> and \<open>undefined\<close> cells as \<open>None\<close>. A step where the source would
  raise is the value \<open>Inl TypeError\<close>; a step where the source would leave the modelled
  domain (an array write that creates holes, a score that becomes NaN) is the value
  \<open>Inl OutOfModel\<close>.
\<close>

subsection \<open>Constants and data (lines 7--72)\<close>

definition BOARD_WIDTH :: int where
  "BOARD_WIDTH = 10"

definition BOARD_HEIGHT :: int where
  "BOARD_HEIGHT = 22"

definition INITIAL_DROP_DELAY :: int where
  "INITIAL_DROP_DELAY = 1000"

definition MIN_DROP_DELAY :: int where
  "MIN_DROP_DELAY = 60"

datatype GameStateStatus = Idle | Playing | Paused | Gameover

text \<open>The seven keys "I" | "J" | "L" | "O" | "S" | "T" | "Z".\<close>

datatype TetrominoKey = KeyI | KeyJ | KeyL | KeyO | KeyS | KeyT | KeyZ

record Cell =
  cell_type :: TetrominoKey
  locked :: bool
  clearing :: "bool option"

type_synonym Board = "Cell option list list"

text \<open>The position \<open>{x, y}\<close> is the pair \<open>(x, y)\<close>.\<close>

record ActivePiece =
  piece_type :: TetrominoKey
  rotation :: int
  position :: "int \<times> int"

record GameStats =
  singles :: int
  doubles :: int
  triples :: int
  tetrises :: int
  combos :: int
  maxCombo :: int

record GameState =
  board :: Board
  current :: ActivePiece
  nextQueue :: "TetrominoKey list"
  holdPiece :: "TetrominoKey option"
  canHold :: bool
  status :: GameStateStatus
  score :: int
  level :: int
  lines :: int
  combo :: int
  stats :: GameStats
  linesToClear :: "int list"
  dropDelay :: int

text \<open>The payload \<open>direction: 1 | -1\<close> of ROTATE.\<close>

datatype Direction = Plus1 | Minus1

fun direction_value :: "Direction \<Rightarrow> int" where
  "direction_value Plus1 = 1"
| "direction_value Minus1 = - 1"

datatype Action =
    RESET ActivePiece "TetrominoKey list"
  | TICK
  | MOVE int int
  | ROTATE Direction
  | HARD_DROP
  | HOLD
  | PAUSE_TOGGLE
  | RESUME
  | GAME_OVER
  | APPLY_CLEARING
  | APPLY_LINES
  | SET_STATUS GameStateStatus
  | SET_HIGH_SCORE int

datatype fault = TypeError | OutOfModel

subsection \<open>Shape table (lines 74--219)\<close>

fun TETROMINOES :: "TetrominoKey \<Rightarrow> int list list list" where
  "TETROMINOES KeyI =
    [[[0, 0, 0, 0], [1, 1, 1, 1], [0, 0, 0, 0], [0, 0, 0, 0]],
     [[0, 0, 1, 0], [0, 0, 1, 0], [0, 0, 1, 0], [0, 0, 1, 0]],
     [[0, 0, 0, 0], [0, 0, 0, 0], [1, 1, 1, 1], [0, 0, 0, 0]],
     [[0, 1, 0, 0], [0, 1, 0, 0], [0, 1, 0, 0], [0, 1, 0, 0]]]"
| "TETROMINOES KeyJ =
    [[[1, 0, 0], [1, 1, 1], [0, 0, 0]],
     [[0, 1, 1], [0, 1, 0], [0, 1, 0]],
     [[0, 0, 0], [1, 1, 1], [0, 0, 1]],
     [[0, 1, 0], [0, 1, 0], [1, 1, 0]]]"
| "TETROMINOES KeyL =
    [[[0, 0, 1], [1, 1, 1], [0, 0, 0]],
     [[0, 1, 0], [0, 1, 0], [0, 1, 1]],
     [[0, 0, 0], [1, 1, 1], [1, 0, 0]],
     [[1, 1, 0], [0, 1, 0], [0, 1, 0]]]"
| "TETROMINOES KeyO =
    [[[0, 1, 1, 0], [0, 1, 1, 0], [0, 0, 0, 0], [0, 0, 0, 0]]]"
| "TETROMINOES KeyS =
    [[[0, 1, 1], [1, 1, 0], [0, 0, 0]],
     [[0, 1, 0], [0, 1, 1], [0, 0, 1]],
     [[0, 0, 0], [0, 1, 1], [1, 1, 0]],
     [[1, 0, 0], [1, 1, 0], [0, 1, 0]]]"
| "TETROMINOES KeyT =
    [[[0, 1, 0], [1, 1, 1], [0, 0, 0]],
     [[0, 1, 0], [0, 1, 1], [0, 1, 0]],
     [[0, 0, 0], [1, 1, 1], [0, 1, 0]],
     [[0, 1, 0], [1, 1, 0], [0, 1, 0]]]"
| "TETROMINOES KeyZ =
    [[[1, 1, 0], [0, 1, 1], [0, 0, 0]],
     [[0, 0, 1], [0, 1, 1], [0, 1, 0]],
     [[0, 0, 0], [1, 1, 0], [0, 1, 1]],
     [[0, 1, 0], [1, 1, 0], [1, 0, 0]]]"

definition SCORES :: "int list" where
  "SCORES = [0, 100, 300, 500, 800]"

subsection \<open>Kick tables (lines 233--349)\<close>

text \<open>
  The tables are keyed by the string \<open>from>to\<close>; the model keeps the pair
  \<open>(from, to)\<close> of which that string is an injective rendering, and the entries in
  their declared order.
\<close>

type_synonym kick_table = "((int \<times> int) \<times> (int \<times> int) list) list"

definition SRS_KICKS_I :: kick_table where
  "SRS_KICKS_I =
    [((0, 1), [(0, 0), (- 2, 0), (1, 0), (- 2, - 1), (1, 2)]),
     ((1, 0), [(0, 0), (2, 0), (- 1, 0), (2, 1), (- 1, - 2)]),
     ((1, 2), [(0, 0), (- 1, 0), (2, 0), (- 1, 2), (2, - 1)]),
     ((2, 1), [(0, 0), (1, 0), (- 2, 0), (1, - 2), (- 2, 1)]),
     ((2, 3), [(0, 0), (2, 0), (- 1, 0), (2, 1), (- 1, - 2)]),
     ((3, 2), [(0, 0), (- 2, 0), (1, 0), (- 2, - 1), (1, 2)]),
     ((3, 0), [(0, 0), (1, 0), (- 2, 0), (1, - 2), (- 2, 1)]),
     ((0, 3), [(0, 0), (- 1, 0), (2, 0), (- 1, 2), (2, - 1)])]"

definition SRS_KICKS_DEFAULT :: kick_table where
  "SRS_KICKS_DEFAULT =
    [((0, 1), [(0, 0), (- 1, 0), (- 1, 1), (0, - 2), (- 1, - 2)]),
     ((1, 0), [(0, 0), (1, 0), (1, - 1), (0, 2), (1, 2)]),
     ((1, 2), [(0, 0), (1, 0), (1, - 1), (0, 2), (1, 2)]),
     ((2, 1), [(0, 0), (- 1, 0), (- 1, 1), (0, - 2), (- 1, - 2)]),
     ((2, 3), [(0, 0), (1, 0), (1, 1), (0, - 2), (1, - 2)]),
     ((3, 2), [(0, 0), (- 1, 0), (- 1, - 1), (0, 2), (- 1, 2)]),
     ((3, 0), [(0, 0), (- 1, 0), (- 1, - 1), (0, 2), (- 1, 2)]),
     ((0, 3), [(0, 0), (1, 0), (1, 1), (0, - 2), (1, - 2)])]"

subsection \<open>Board helpers (lines 351--457)\<close>

definition EMPTY_BOARD :: Board where
  "EMPTY_BOARD = replicate (nat BOARD_HEIGHT) (replicate (nat BOARD_WIDTH) None)"

text \<open>
  The remainder operator \<open>%\<close> of JavaScript truncates towards zero: the result has the
  sign of the dividend.
\<close>

definition js_rem :: "int \<Rightarrow> int \<Rightarrow> int" where
  "js_rem a b = (if a < 0 then - ((- a) mod \<bar>b\<bar>) else a mod \<bar>b\<bar>)"

text \<open>
  \<open>variations[rotation % variations.length]\<close>: a negative index reads \<open>undefined\<close>,
  which is \<open>None\<close> here.
\<close>

definition getPieceMatrix :: "TetrominoKey \<Rightarrow> int \<Rightarrow> int list list option" where
  "getPieceMatrix piece rot =
    (let variations = TETROMINOES piece;
         i = js_rem rot (int (length variations))
     in if i < 0 then None else Some (variations ! nat i))"

definition cloneBoard :: "Board \<Rightarrow> Board" where
  "cloneBoard b = map (map (\<lambda>cell. case cell of None \<Rightarrow> None | Some c \<Rightarrow> Some c)) b"

text \<open>
  The read \<open>board[y][x]\<close>: a missing row is \<open>undefined\<close> and indexing it raises; a
  missing column of an existing row reads \<open>undefined\<close>, which is falsy.
\<close>

definition board_read :: "Board \<Rightarrow> int \<Rightarrow> int \<Rightarrow> fault + Cell option" where
  "board_read b y x =
    (if y < 0 \<or> int (length b) \<le> y then Inl TypeError
     else if x < 0 \<or> int (length (b ! nat y)) \<le> x then Inr None
     else Inr (b ! nat y ! nat x))"

definition isCellOccupied :: "Board \<Rightarrow> int \<Rightarrow> int \<Rightarrow> fault + bool" where
  "isCellOccupied b x y =
    (if x < 0 \<or> x \<ge> BOARD_WIDTH \<or> y \<ge> BOARD_HEIGHT then Inr True
     else if y < 0 then Inr False
     else (case board_read b y x of
             Inl e \<Rightarrow> Inl e
           | Inr cell \<Rightarrow> Inr (cell \<noteq> None)))"

text \<open>The inner loop of \<open>collides\<close> over the columns \<open>x, x + 1, ...\<close> of matrix row \<open>y\<close>.\<close>

fun collides_row :: "Board \<Rightarrow> int \<times> int \<Rightarrow> int \<Rightarrow> int \<Rightarrow> int list \<Rightarrow> fault + bool" where
  "collides_row b pos y x [] = Inr False"
| "collides_row b pos y x (v # vs) =
    (if v = 0 then collides_row b pos y (x + 1) vs
     else
       let boardX = fst pos + x;
           boardY = snd pos + y
       in if boardX < 0 \<or> boardX \<ge> BOARD_WIDTH \<or> boardY \<ge> BOARD_HEIGHT then Inr True
          else if boardY \<ge> 0 then
            (case board_read b boardY boardX of
               Inl e \<Rightarrow> Inl e
             | Inr (Some c) \<Rightarrow> Inr True
             | Inr None \<Rightarrow> collides_row b pos y (x + 1) vs)
          else collides_row b pos y (x + 1) vs)"

text \<open>The outer loop over the matrix rows \<open>y, y + 1, ...\<close>.\<close>

fun collides_rows :: "Board \<Rightarrow> int \<times> int \<Rightarrow> int \<Rightarrow> int list list \<Rightarrow> fault + bool" where
  "collides_rows b pos y [] = Inr False"
| "collides_rows b pos y (row # rows) =
    (case collides_row b pos y 0 row of
       Inl e \<Rightarrow> Inl e
     | Inr True \<Rightarrow> Inr True
     | Inr False \<Rightarrow> collides_rows b pos (y + 1) rows)"

text \<open>
  \<open>collides(board, piece, position?, rotation?)\<close>: an omitted argument is \<open>None\<close> and
  falls back to the piece's own field. Reading \<open>matrix.length\<close> of an undefined matrix
  raises.
\<close>

definition collides ::
  "Board \<Rightarrow> ActivePiece \<Rightarrow> (int \<times> int) option \<Rightarrow> int option \<Rightarrow> fault + bool" where
  "collides b piece pos_arg rot_arg =
    (case getPieceMatrix (piece_type piece)
            (case rot_arg of None \<Rightarrow> rotation piece | Some r \<Rightarrow> r) of
       None \<Rightarrow> Inl TypeError
     | Some matrix \<Rightarrow>
         collides_rows b (case pos_arg of None \<Rightarrow> position piece | Some p \<Rightarrow> p) 0 matrix)"

text \<open>
  The write \<open>nextBoard[y][x] = cell\<close>: a missing row raises. A write past the end of
  an existing row would extend the row and leave holes, which the list model does not
  have: the model stops there with \<open>OutOfModel\<close>.
\<close>

definition board_write :: "Board \<Rightarrow> int \<Rightarrow> int \<Rightarrow> Cell \<Rightarrow> fault + Board" where
  "board_write b y x c =
    (if y < 0 \<or> int (length b) \<le> y then Inl TypeError
     else if x < 0 \<or> int (length (b ! nat y)) \<le> x then Inl OutOfModel
     else Inr (b[nat y := (b ! nat y)[nat x := Some c]]))"

fun merge_row :: "Board \<Rightarrow> ActivePiece \<Rightarrow> int \<Rightarrow> int \<Rightarrow> int list \<Rightarrow> fault + Board" where
  "merge_row nb piece y x [] = Inr nb"
| "merge_row nb piece y x (v # vs) =
    (if v = 0 then merge_row nb piece y (x + 1) vs
     else
       let boardX = fst (position piece) + x;
           boardY = snd (position piece) + y
       in if boardY \<ge> 0 \<and> boardY < BOARD_HEIGHT \<and> boardX \<ge> 0 \<and> boardX < BOARD_WIDTH then
            (case board_write nb boardY boardX
                    \<lparr>cell_type = piece_type piece, locked = True, clearing = None\<rparr> of
               Inl e \<Rightarrow> Inl e
             | Inr nb' \<Rightarrow> merge_row nb' piece y (x + 1) vs)
          else merge_row nb piece y (x + 1) vs)"

fun merge_rows :: "Board \<Rightarrow> ActivePiece \<Rightarrow> int \<Rightarrow> int list list \<Rightarrow> fault + Board" where
  "merge_rows nb piece y [] = Inr nb"
| "merge_rows nb piece y (row # rows) =
    (case merge_row nb piece y 0 row of
       Inl e \<Rightarrow> Inl e
     | Inr nb' \<Rightarrow> merge_rows nb' piece (y + 1) rows)"

definition mergePiece :: "Board \<Rightarrow> ActivePiece \<Rightarrow> fault + Board" where
  "mergePiece b piece =
    (case getPieceMatrix (piece_type piece) (rotation piece) of
       None \<Rightarrow> Inl TypeError
     | Some matrix \<Rightarrow> merge_rows (cloneBoard b) piece 0 matrix)"

fun findFullLines_from :: "int \<Rightarrow> Board \<Rightarrow> int list" where
  "findFullLines_from y [] = []"
| "findFullLines_from y (row # rows) =
    (if list_all (\<lambda>cell. cell \<noteq> None) row then y # findFullLines_from (y + 1) rows
     else findFullLines_from (y + 1) rows)"

definition findFullLines :: "Board \<Rightarrow> int list" where
  "findFullLines b = findFullLines_from 0 b"

text \<open>
  \<open>array.splice(start, 1)\<close>: a negative start counts from the end (clamped at 0), a
  start at or past the length removes nothing.
\<close>

definition splice1 :: "int \<Rightarrow> 'a list \<Rightarrow> 'a list" where
  "splice1 start xs =
    (let n = int (length xs);
         k = (if start < 0 then max (n + start) 0 else min start n)
     in take (nat k) xs @ drop (nat k + 1) xs)"

definition clearFullLines :: "Board \<Rightarrow> int list \<Rightarrow> Board" where
  "clearFullLines b ls =
    (if ls = [] then b
     else foldl (\<lambda>nextBoard line. replicate (nat BOARD_WIDTH) None # splice1 line nextBoard)
            (cloneBoard b) ls)"

subsection \<open>Kick resolver (lines 459--487)\<close>

definition getRotationKey :: "int \<Rightarrow> int \<Rightarrow> int \<times> int" where
  "getRotationKey from to = (js_rem from 4, js_rem to 4)"

fun kick_loop ::
  "Board \<Rightarrow> ActivePiece \<Rightarrow> int \<Rightarrow> (int \<times> int) list \<Rightarrow> fault + ((int \<times> int) \<times> int) option" where
  "kick_loop b piece nextRotation [] = Inr None"
| "kick_loop b piece nextRotation (kick # kicks) =
    (let candidatePos = (fst (position piece) + fst kick, snd (position piece) + snd kick)
     in case collides b piece (Some candidatePos) (Some nextRotation) of
          Inl e \<Rightarrow> Inl e
        | Inr False \<Rightarrow> Inr (Some (candidatePos, nextRotation))
        | Inr True \<Rightarrow> kick_loop b piece nextRotation kicks)"

text \<open>The result \<open>{position, rotation} | null\<close> is an optional pair.\<close>

definition applyKickTests ::
  "Board \<Rightarrow> ActivePiece \<Rightarrow> Direction \<Rightarrow> fault + ((int \<times> int) \<times> int) option" where
  "applyKickTests b piece direction =
    (let nextRotation = js_rem (rotation piece + direction_value direction + 4) 4;
         key = getRotationKey (rotation piece) nextRotation;
         kicksTable =
           (if piece_type piece = KeyO then [(key, [(0, 0)])]
            else if piece_type piece = KeyI then SRS_KICKS_I
            else SRS_KICKS_DEFAULT);
         kicks = (case map_of kicksTable key of None \<Rightarrow> [(0, 0)] | Some ks \<Rightarrow> ks)
     in kick_loop b piece nextRotation kicks)"

subsection \<open>Randomizer and queue (lines 359--366, 489--500)\<close>

text \<open>
  \<open>Math.random\<close> is an entropy source the engine does not own: the model takes the
  sequence of draws as a parameter. \<open>Math.floor(Math.random() * (i + 1))\<close> is some index
  in \<open>0..i\<close>, here the next draw reduced modulo \<open>i + 1\<close>.
\<close>

type_synonym entropy = "nat \<Rightarrow> nat"

definition advance :: "nat \<Rightarrow> entropy \<Rightarrow> entropy" where
  "advance n g = (\<lambda>k. g (k + n))"

text \<open>The Fisher-Yates loop \<open>for (i = bag.length - 1; i > 0; i -= 1)\<close>, at index \<open>i\<close>.\<close>

fun shuffle_loop :: "nat \<Rightarrow> entropy \<Rightarrow> 'a list \<Rightarrow> 'a list" where
  "shuffle_loop 0 g bag = bag"
| "shuffle_loop (Suc n) g bag =
    (let i = Suc n;
         j = g 0 mod (i + 1)
     in shuffle_loop n (advance 1 g) (bag[i := bag ! j, j := bag ! i]))"

definition randomBag :: "entropy \<Rightarrow> TetrominoKey list" where
  "randomBag g = shuffle_loop 6 g [KeyI, KeyJ, KeyL, KeyO, KeyS, KeyT, KeyZ]"

text \<open>
  \<open>spawnPiece\<close> pushes a bag into its argument when that is empty, so the caller's array
  changes too: \<open>sp_arg\<close> is the argument array as the call leaves it. The head is read
  only after the push, from a list that is never empty (a bag has seven kinds).
\<close>

record SpawnResult =
  sp_piece :: ActivePiece
  sp_queue :: "TetrominoKey list"
  sp_arg :: "TetrominoKey list"

definition spawnPiece :: "entropy \<Rightarrow> TetrominoKey list \<Rightarrow> SpawnResult" where
  "spawnPiece g queue =
    (let pushed = (if queue = [] then queue @ randomBag g else queue);
         g' = (if queue = [] then advance 6 g else g);
         nextPiece = hd pushed;
         rest = tl pushed
     in \<lparr>sp_piece = \<lparr>piece_type = nextPiece, rotation = 0, position = (3, 0)\<rparr>,
         sp_queue = (if length rest \<le> 7 then rest @ randomBag g' else rest),
         sp_arg = pushed\<rparr>)"

subsection \<open>Scoring policy (lines 502--504)\<close>

definition calculateLevel :: "int \<Rightarrow> int" where
  "calculateLevel ls = min 20 (ls div 10 + 1)"

definition calculateDelay :: "int \<Rightarrow> int" where
  "calculateDelay lvl = max MIN_DROP_DELAY (INITIAL_DROP_DELAY - (lvl - 1) * 70)"

definition startingState :: "entropy \<Rightarrow> GameState" where
  "startingState g =
    (let queue = randomBag g;
         first = hd queue
     in \<lparr>board = EMPTY_BOARD,
         current = \<lparr>piece_type = first, rotation = 0, position = (3, 0)\<rparr>,
         nextQueue = tl queue @ randomBag (advance 6 g),
         holdPiece = None,
         canHold = True,
         status = Idle,
         score = 0,
         level = 1,
         lines = 0,
         combo = - 1,
         stats = \<lparr>singles = 0, doubles = 0, triples = 0, tetrises = 0, combos = 0, maxCombo = 0\<rparr>,
         linesToClear = [],
         dropDelay = INITIAL_DROP_DELAY\<rparr>)"

subsection \<open>Reducer (lines 506--747)\<close>

text \<open>
  The marking loop \<open>marked[line]?.forEach(...)\<close> for one line: every locked cell of the
  row gets \<open>clearing: true\<close>; a line with no row is skipped.
\<close>

definition mark_line :: "Board \<Rightarrow> int \<Rightarrow> Board" where
  "mark_line marked line =
    (if 0 \<le> line \<and> line < int (length marked) then
       marked[nat line :=
         map (\<lambda>cell. case cell of None \<Rightarrow> None | Some c \<Rightarrow> Some (c\<lparr>clearing := Some True\<rparr>))
           (marked ! nat line)]
     else marked)"

text \<open>The statistics of a clearing lock: the spread object and the four increments.\<close>

definition lock_stats :: "GameStats \<Rightarrow> int \<Rightarrow> nat \<Rightarrow> GameStats" where
  "lock_stats st cmb n =
    (let s0 = st\<lparr>combos := (if cmb > 0 then combos st + 1 else combos st),
                 maxCombo := max (maxCombo st) cmb\<rparr>;
         s1 = (if n = 1 then s0\<lparr>singles := singles s0 + 1\<rparr> else s0);
         s2 = (if n = 2 then s1\<lparr>doubles := doubles s1 + 1\<rparr> else s1);
         s3 = (if n = 3 then s2\<lparr>triples := triples s2 + 1\<rparr> else s2)
     in if n = 4 then s3\<lparr>tetrises := tetrises s3 + 1\<rparr> else s3)"

text \<open>
  \<open>SCORES[lines.length]\<close>: past the end of the table the read is \<open>undefined\<close> and the
  score would become NaN.
\<close>

definition scores_at :: "nat \<Rightarrow> int option" where
  "scores_at n = (if n < length SCORES then Some (SCORES ! n) else None)"

text \<open>
  The hard-drop loop \<open>while (!collides(..., y + dropDistance + 1)) dropDistance += 1\<close>
  has no bound of its own. It ends because every shape has an occupied cell, and a pose
  that does not collide keeps every occupied cell above the bottom boundary.
\<close>

lemma collides_row_False:
  "collides_row b pos y x vs = Inr False \<Longrightarrow> v \<in> set vs \<Longrightarrow> v \<noteq> 0 \<Longrightarrow> snd pos + y < BOARD_HEIGHT"
  by (induction vs arbitrary: x) (auto simp: Let_def split: if_splits sum.splits option.splits)

lemma collides_rows_False:
  "collides_rows b pos y m = Inr False \<Longrightarrow> row \<in> set m \<Longrightarrow> v \<in> set row \<Longrightarrow> v \<noteq> 0
     \<Longrightarrow> snd pos + y < BOARD_HEIGHT"
proof (induction m arbitrary: y)
  case Nil
  then show ?case by simp
next
  case (Cons r rs)
  from Cons.prems(1) have r: "collides_row b pos y 0 r = Inr False"
    and rs: "collides_rows b pos (y + 1) rs = Inr False"
    by (auto split: sum.splits bool.splits if_splits)
  show ?case
  proof (cases "row = r")
    case True
    with r Cons.prems show ?thesis by (auto dest: collides_row_False)
  next
    case False
    with Cons.prems have "row \<in> set rs" by simp
    from Cons.IH [OF rs this Cons.prems(3,4)] show ?thesis by simp
  qed
qed

lemma js_rem_range: "0 < b \<Longrightarrow> 0 \<le> js_rem a b \<Longrightarrow> nat (js_rem a b) < nat b"
proof -
  assume b: "0 < b" and nn: "0 \<le> js_rem a b"
  have "js_rem a b < b"
  proof (cases "a < 0")
    case True
    then have "js_rem a b = - ((- a) mod b)" using b by (simp add: js_rem_def)
    moreover from b have "0 \<le> (- a) mod b" by simp
    ultimately show ?thesis using b by linarith
  next
    case False
    then have "js_rem a b = a mod b" using b by (simp add: js_rem_def)
    moreover from b have "a mod b < b" by simp
    ultimately show ?thesis by linarith
  qed
  with nn show ?thesis by simp
qed

lemma TETROMINOES_has_cell:
  "m \<in> set (TETROMINOES t) \<Longrightarrow> \<exists>row \<in> set m. \<exists>v \<in> set row. v \<noteq> 0"
  by (cases t) auto

lemma getPieceMatrix_mem:
  "getPieceMatrix t r = Some m \<Longrightarrow> m \<in> set (TETROMINOES t)"
proof -
  assume a: "getPieceMatrix t r = Some m"
  have len: "0 < int (length (TETROMINOES t))" by (cases t) auto
  from a have nn: "0 \<le> js_rem r (int (length (TETROMINOES t)))"
    and m: "m = TETROMINOES t ! nat (js_rem r (int (length (TETROMINOES t))))"
    by (auto simp: getPieceMatrix_def Let_def split: if_splits)
  from js_rem_range [OF len nn] have "nat (js_rem r (int (length (TETROMINOES t)))) < length (TETROMINOES t)"
    by simp
  with m show ?thesis by simp
qed

lemma collides_False_bound:
  "collides b p pa ra = Inr False \<Longrightarrow>
     snd (case pa of None \<Rightarrow> position p | Some q \<Rightarrow> q) < BOARD_HEIGHT"
proof -
  assume a: "collides b p pa ra = Inr False"
  then obtain m where m: "getPieceMatrix (piece_type p) (case ra of None \<Rightarrow> rotation p | Some r \<Rightarrow> r) = Some m"
    and c: "collides_rows b (case pa of None \<Rightarrow> position p | Some q \<Rightarrow> q) 0 m = Inr False"
    by (auto simp: collides_def split: option.splits)
  from TETROMINOES_has_cell [OF getPieceMatrix_mem [OF m]]
  obtain row v where "row \<in> set m" "v \<in> set row" "v \<noteq> 0" by blast
  from collides_rows_False [OF c this] show ?thesis by simp
qed

function drop_loop :: "Board \<Rightarrow> ActivePiece \<Rightarrow> int \<Rightarrow> fault + int" where
  "drop_loop b piece dropDistance =
    (case collides b piece
            (Some (fst (position piece), snd (position piece) + dropDistance + 1)) None of
       Inl e \<Rightarrow> Inl e
     | Inr True \<Rightarrow> Inr dropDistance
     | Inr False \<Rightarrow> drop_loop b piece (dropDistance + 1))"
  by pat_completeness auto
termination
proof (relation "measure (\<lambda>(b, piece, d). nat (BOARD_HEIGHT - (snd (position piece) + d)))")
  show "wf (measure (\<lambda>(b, piece, d). nat (BOARD_HEIGHT - (snd (position piece) + d))))"
    by simp
next
  fix b :: Board and piece :: ActivePiece and dropDistance :: int and r :: bool
  assume "collides b piece
            (Some (fst (position piece), snd (position piece) + dropDistance + 1)) None = Inr r"
    and "r = False"
  then have "collides b piece
            (Some (fst (position piece), snd (position piece) + dropDistance + 1)) None = Inr False"
    by simp
  from collides_False_bound [OF this]
  have "snd (position piece) + dropDistance + 1 < BOARD_HEIGHT" by simp
  then show "((b, piece, dropDistance + 1), (b, piece, dropDistance))
      \<in> measure (\<lambda>(b, piece, d). nat (BOARD_HEIGHT - (snd (position piece) + d)))"
    by simp
qed

text \<open>
  The reducer. Its TICK and HARD_DROP cases repeat the lock procedure, as the source
  does. In a game-over branch the spread \<open>{...state, ...}\<close> keeps the queue array that
  \<open>spawnPiece\<close> was called on, so the new state holds that array as the call left it.
  HOLD works on a copy of the queue and returns no queue field: the state's queue stays.
\<close>

fun reducer :: "entropy \<Rightarrow> GameState \<Rightarrow> Action \<Rightarrow> fault + GameState" where
  "reducer g state (RESET piece queue) =
    Inr ((startingState g)\<lparr>board := EMPTY_BOARD, current := piece, nextQueue := queue,
                            status := Playing\<rparr>)"
| "reducer g state (SET_STATUS st) = Inr (state\<lparr>status := st\<rparr>)"
| "reducer g state PAUSE_TOGGLE =
    Inr (state\<lparr>status := (if status state = Paused then Playing else Paused)\<rparr>)"
| "reducer g state RESUME = Inr (state\<lparr>status := Playing\<rparr>)"
| "reducer g state (MOVE dx dy) =
    (if status state \<noteq> Playing then Inr state
     else
       let pos = (fst (position (current state)) + dx, snd (position (current state)) + dy)
       in (case collides (board state) (current state) (Some pos) None of
             Inl e \<Rightarrow> Inl e
           | Inr True \<Rightarrow> Inr state
           | Inr False \<Rightarrow> Inr (state\<lparr>current := (current state)\<lparr>position := pos\<rparr>\<rparr>)))"
| "reducer g state (ROTATE direction) =
    (if status state \<noteq> Playing then Inr state
     else
      (case applyKickTests (board state) (current state) direction of
         Inl e \<Rightarrow> Inl e
       | Inr None \<Rightarrow> Inr state
       | Inr (Some kicked) \<Rightarrow>
           Inr (state\<lparr>current := (current state)\<lparr>position := fst kicked,
                                                  rotation := snd kicked\<rparr>\<rparr>)))"
| "reducer g state TICK =
    (if status state \<noteq> Playing then Inr state
     else
      (let nextPos = (fst (position (current state)), snd (position (current state)) + 1)
       in (case collides (board state) (current state) (Some nextPos) None of
             Inl e \<Rightarrow> Inl e
           | Inr False \<Rightarrow> Inr (state\<lparr>current := (current state)\<lparr>position := nextPos\<rparr>\<rparr>)
           | Inr True \<Rightarrow>
              (case mergePiece (board state) (current state) of
                 Inl e \<Rightarrow> Inl e
               | Inr merged \<Rightarrow>
                  (let ls = findFullLines merged
                   in if ls \<noteq> [] then
                        (let marked = foldl mark_line (cloneBoard merged) ls;
                             combo' = combo state + 1;
                             level' = calculateLevel (lines state + int (length ls))
                         in (case scores_at (length ls) of
                               None \<Rightarrow> Inl OutOfModel
                             | Some baseScore \<Rightarrow>
                                (let comboBonus = (if combo' > 0 then combo' * 50 else 0);
                                     totalScore = (baseScore + comboBonus) * level';
                                     stats' = lock_stats (stats state) combo' (length ls)
                                 in Inr (state\<lparr>board := marked,
                                               linesToClear := ls,
                                               combo := combo',
                                               stats := stats',
                                               score := score state + totalScore,
                                               lines := lines state + int (length ls),
                                               level := level',
                                               dropDelay := calculateDelay level',
                                               canHold := True\<rparr>))))
                      else
                        (let next = spawnPiece g (nextQueue state)
                         in (case collides merged (sp_piece next) None None of
                               Inl e \<Rightarrow> Inl e
                             | Inr True \<Rightarrow>
                                 Inr (state\<lparr>nextQueue := sp_arg next, board := merged,
                                            status := Gameover\<rparr>)
                             | Inr False \<Rightarrow>
                                 Inr (state\<lparr>board := merged,
                                            current := sp_piece next,
                                            nextQueue := sp_queue next,
                                            canHold := True,
                                            combo := - 1\<rparr>))))))))"
| "reducer g state APPLY_CLEARING =
    (if linesToClear state = [] then Inr state
     else
       let clearedBoard = clearFullLines (board state) (linesToClear state);
           next = spawnPiece g (nextQueue state)
       in (case collides clearedBoard (sp_piece next) None None of
             Inl e \<Rightarrow> Inl e
           | Inr True \<Rightarrow>
               Inr (state\<lparr>nextQueue := sp_arg next, board := clearedBoard,
                          status := Gameover, linesToClear := []\<rparr>)
           | Inr False \<Rightarrow>
               Inr (state\<lparr>board := clearedBoard,
                          current := sp_piece next,
                          nextQueue := sp_queue next,
                          linesToClear := []\<rparr>)))"
| "reducer g state HOLD =
    (if status state \<noteq> Playing \<or> \<not> canHold state then Inr state
     else
       let nextPiece =
             (case holdPiece state of
                Some hold \<Rightarrow> \<lparr>piece_type = hold, rotation = 0, position = (3, 0)\<rparr>
              | None \<Rightarrow> sp_piece (spawnPiece g (nextQueue state)));
           nextHold = Some (piece_type (current state))
       in (case collides (board state) nextPiece None None of
             Inl e \<Rightarrow> Inl e
           | Inr True \<Rightarrow> Inr (state\<lparr>status := Gameover\<rparr>)
           | Inr False \<Rightarrow>
               Inr (state\<lparr>current := nextPiece, holdPiece := nextHold, canHold := False\<rparr>)))"
| "reducer g state HARD_DROP =
    (if status state \<noteq> Playing then Inr state
     else
      (case drop_loop (board state) (current state) 0 of
         Inl e \<Rightarrow> Inl e
       | Inr dropDistance \<Rightarrow>
          (let landedPiece =
                 (current state)\<lparr>position := (fst (position (current state)),
                                              snd (position (current state)) + dropDistance)\<rparr>
           in (case mergePiece (board state) landedPiece of
                 Inl e \<Rightarrow> Inl e
               | Inr merged \<Rightarrow>
                  (let ls = findFullLines merged;
                       bonusScore = 2 * dropDistance
                   in if ls \<noteq> [] then
                        (let marked = foldl mark_line (cloneBoard merged) ls;
                             combo' = combo state + 1;
                             level' = calculateLevel (lines state + int (length ls))
                         in (case scores_at (length ls) of
                               None \<Rightarrow> Inl OutOfModel
                             | Some baseScore \<Rightarrow>
                                (let comboBonus = (if combo' > 0 then combo' * 50 else 0);
                                     totalScore = (baseScore + comboBonus) * level' + bonusScore;
                                     stats' = lock_stats (stats state) combo' (length ls)
                                 in Inr (state\<lparr>board := marked,
                                               linesToClear := ls,
                                               combo := combo',
                                               stats := stats',
                                               score := score state + totalScore,
                                               lines := lines state + int (length ls),
                                               level := level',
                                               dropDelay := calculateDelay level',
                                               canHold := True\<rparr>))))
                      else
                        (let next = spawnPiece g (nextQueue state)
                         in (case collides merged (sp_piece next) None None of
                               Inl e \<Rightarrow> Inl e
                             | Inr True \<Rightarrow>
                                 Inr (state\<lparr>nextQueue := sp_arg next, board := merged,
                                            score := score state + bonusScore,
                                            status := Gameover\<rparr>)
                             | Inr False \<Rightarrow>
                                 Inr (state\<lparr>board := merged,
                                            current := sp_piece next,
                                            nextQueue := sp_queue next,
                                            score := score state + bonusScore,
                                            combo := - 1,
                                            canHold := True\<rparr>))))))))"
| "reducer g state GAME_OVER = Inr (state\<lparr>status := Gameover\<rparr>)"
| "reducer g state APPLY_LINES = Inr state"
| "reducer g state (SET_HIGH_SCORE v) = Inr state"

section \<open>Collision\<close>

text \<open>
  A board of the data model is a grid of \<open>BOARD_HEIGHT\<close> rows of \<open>BOARD_WIDTH\<close> cells;
  \<open>EMPTY_BOARD\<close> builds one and every board helper keeps the shape.
\<close>

definition wf_board :: "Board \<Rightarrow> bool" where
  "wf_board b = (int (length b) = BOARD_HEIGHT \<and> list_all (\<lambda>row. int (length row) = BOARD_WIDTH) b)"

definition cell_blocked :: "Board \<Rightarrow> int \<Rightarrow> int \<Rightarrow> bool" where
  "cell_blocked b bx by =
    (bx < 0 \<or> bx \<ge> BOARD_WIDTH \<or> by \<ge> BOARD_HEIGHT \<or> (by \<ge> 0 \<and> b ! nat by ! nat bx \<noteq> None))"

definition pose_matrix :: "TetrominoKey \<Rightarrow> int \<Rightarrow> int list list" where
  "pose_matrix t r = TETROMINOES t ! (nat r mod length (TETROMINOES t))"

text \<open>Concrete inputs for evaluating the engine.\<close>

definition locked_cell :: "TetrominoKey \<Rightarrow> Cell option" where
  "locked_cell t = Some \<lparr>cell_type = t, locked = True, clearing = None\<rparr>"

definition blocked_board :: Board where
  "blocked_board = EMPTY_BOARD[2 := (EMPTY_BOARD ! 2)[4 := locked_cell KeyO]]"

definition demo_piece :: "TetrominoKey \<Rightarrow> int \<Rightarrow> int \<Rightarrow> ActivePiece" where
  "demo_piece t px py = \<lparr>piece_type = t, rotation = 0, position = (px, py)\<rparr>"

lemma ex_less_Suc_shift: "(\<exists>i < Suc k. P i) = (P 0 \<or> (\<exists>i < k. P (Suc i)))"
  by (auto simp: less_Suc_eq_0_disj)

lemma wf_board_read:
  "wf_board b \<Longrightarrow> 0 \<le> by \<Longrightarrow> by < BOARD_HEIGHT \<Longrightarrow> 0 \<le> bx \<Longrightarrow> bx < BOARD_WIDTH \<Longrightarrow>
     board_read b by bx = Inr (b ! nat by ! nat bx)"
  by (auto simp: wf_board_def board_read_def list_all_length)

lemma collides_row_wf:
  "wf_board b \<Longrightarrow>
     collides_row b pos y x0 vs =
       Inr (\<exists>i < length vs. vs ! i \<noteq> 0 \<and> cell_blocked b (fst pos + (x0 + int i)) (snd pos + y))"
proof (induction vs arbitrary: x0)
  case Nil
  then show ?case by simp
next
  case (Cons v vs)
  define R where
    "R = (\<exists>i < length vs. vs ! i \<noteq> 0 \<and> cell_blocked b (fst pos + (x0 + 1 + int i)) (snd pos + y))"
  have ih: "collides_row b pos y (x0 + 1) vs = Inr R"
    unfolding R_def by (rule Cons.IH [OF Cons.prems])
  have goal_split:
    "(\<exists>i < length (v # vs). (v # vs) ! i \<noteq> 0 \<and> cell_blocked b (fst pos + (x0 + int i)) (snd pos + y))
       = ((v \<noteq> 0 \<and> cell_blocked b (fst pos + x0) (snd pos + y)) \<or> R)"
    unfolding R_def by (simp add: ex_less_Suc_shift algebra_simps)
  have "collides_row b pos y x0 (v # vs)
          = Inr ((v \<noteq> 0 \<and> cell_blocked b (fst pos + x0) (snd pos + y)) \<or> R)"
  proof (cases "v = 0")
    case True
    then show ?thesis by (simp add: ih)
  next
    case False
    show ?thesis
    proof (cases "cell_blocked b (fst pos + x0) (snd pos + y)")
      case True
      with False Cons.prems show ?thesis
        by (auto simp: Let_def cell_blocked_def wf_board_read split: option.splits)
    next
      case nb: False
      with False Cons.prems show ?thesis
        by (auto simp: ih Let_def cell_blocked_def wf_board_read not_le not_less
                 split: option.splits)
    qed
  qed
  then show ?case unfolding goal_split .
qed

lemma collides_rows_wf:
  "wf_board b \<Longrightarrow>
     collides_rows b pos y0 m =
       Inr (\<exists>cy < length m. \<exists>cx < length (m ! cy).
              m ! cy ! cx \<noteq> 0 \<and> cell_blocked b (fst pos + int cx) (snd pos + (y0 + int cy)))"
proof (induction m arbitrary: y0)
  case Nil
  then show ?case by simp
next
  case (Cons row m)
  define R where
    "R = (\<exists>cy < length m. \<exists>cx < length (m ! cy).
              m ! cy ! cx \<noteq> 0 \<and> cell_blocked b (fst pos + int cx) (snd pos + (y0 + 1 + int cy)))"
  define R0 where
    "R0 = (\<exists>cx < length row. row ! cx \<noteq> 0 \<and> cell_blocked b (fst pos + int cx) (snd pos + y0))"
  have ih: "collides_rows b pos (y0 + 1) m = Inr R"
    unfolding R_def by (rule Cons.IH [OF Cons.prems])
  have r: "collides_row b pos y0 0 row = Inr R0"
    unfolding R0_def using collides_row_wf [OF Cons.prems, of pos y0 0 row] by simp
  have goal_split:
    "(\<exists>cy < length (row # m). \<exists>cx < length ((row # m) ! cy).
        (row # m) ! cy ! cx \<noteq> 0 \<and> cell_blocked b (fst pos + int cx) (snd pos + (y0 + int cy)))
       = (R0 \<or> R)"
    unfolding R_def R0_def by (simp add: ex_less_Suc_shift algebra_simps)
  have "collides_rows b pos y0 (row # m) = Inr (R0 \<or> R)"
    by (cases R0) (simp_all add: r ih)
  then show ?case unfolding goal_split .
qed

lemma getPieceMatrix_nonneg:
  "0 \<le> r \<Longrightarrow> getPieceMatrix t r = Some (pose_matrix t r)"
proof -
  assume r: "0 \<le> r"
  have len: "0 < length (TETROMINOES t)" by (cases t) auto
  from r have "js_rem r (int (length (TETROMINOES t))) = r mod int (length (TETROMINOES t))"
    by (simp add: js_rem_def)
  moreover from r len have "nat (r mod int (length (TETROMINOES t))) = nat r mod length (TETROMINOES t)"
    by (simp add: nat_mod_distrib)
  moreover from len have "0 \<le> r mod int (length (TETROMINOES t))" by simp
  ultimately show ?thesis by (simp add: getPieceMatrix_def pose_matrix_def Let_def)
qed

lemma isCellOccupied_wf:
  "wf_board b \<Longrightarrow> isCellOccupied b bx by = Inr (cell_blocked b bx by)"
  by (auto simp: isCellOccupied_def cell_blocked_def wf_board_read not_le)

lemma wf_blocked_board: "wf_board blocked_board"
  by (simp add: wf_board_def blocked_board_def EMPTY_BOARD_def BOARD_HEIGHT_def BOARD_WIDTH_def
        list_all_length nth_list_update)

text \<open>
  C1 (collision soundness). On a board of the data model and for a pose with a rotation
  index that is not negative, \<open>collides\<close> returns without fault, and returns true exactly
  when some occupied cell of the pose's rotation matrix maps to a column outside
  \<open>[0, BOARD_WIDTH)\<close>, or to a row at or past \<open>BOARD_HEIGHT\<close>, or onto an occupied board
  cell at a row that is not negative. A cell that maps above the top boundary with its
  column in range satisfies none of the three, so it never blocks; \<open>isCellOccupied\<close>
  decides the same condition for one cell.
\<close>

theorem collides_sound:
  assumes "wf_board b" and "0 \<le> r"
  shows "collides b p (Some (px, py)) (Some r) =
           Inr (\<exists>cy < length (pose_matrix (piece_type p) r).
                \<exists>cx < length (pose_matrix (piece_type p) r ! cy).
                  pose_matrix (piece_type p) r ! cy ! cx \<noteq> 0 \<and>
                  (px + int cx < 0 \<or> px + int cx \<ge> BOARD_WIDTH \<or> py + int cy \<ge> BOARD_HEIGHT \<or>
                   (py + int cy \<ge> 0 \<and> b ! nat (py + int cy) ! nat (px + int cx) \<noteq> None)))
         \<and> isCellOccupied b x y =
           Inr (x < 0 \<or> x \<ge> BOARD_WIDTH \<or> y \<ge> BOARD_HEIGHT \<or> (y \<ge> 0 \<and> b ! nat y ! nat x \<noteq> None))"
  using collides_rows_wf [OF assms(1), of "(px, py)" 0 "pose_matrix (piece_type p) r"]
    getPieceMatrix_nonneg [OF assms(2), of "piece_type p"]
    isCellOccupied_wf [OF assms(1), of x y]
  by (simp add: collides_def cell_blocked_def)

theorem collides_sound_witness:
  "wf_board blocked_board \<and> (0::int) \<le> 1 \<and>
   collides blocked_board (demo_piece KeyT 3 0) (Some (3, 0)) (Some 1) = Inr True \<and>
   (\<exists>cy < length (pose_matrix KeyT 1). \<exists>cx < length (pose_matrix KeyT 1 ! cy).
      pose_matrix KeyT 1 ! cy ! cx \<noteq> 0 \<and>
      (3 + int cx < 0 \<or> 3 + int cx \<ge> BOARD_WIDTH \<or> 0 + int cy \<ge> BOARD_HEIGHT \<or>
       (0 + int cy \<ge> 0 \<and> blocked_board ! nat (0 + int cy) ! nat (3 + int cx) \<noteq> None))) \<and>
   isCellOccupied blocked_board 4 (- 1) = Inr False"
proof -
  have wf: "wf_board blocked_board" by (rule wf_blocked_board)
  have ev: "collides blocked_board (demo_piece KeyT 3 0) (Some (3, 0)) (Some 1) = Inr True"
    by code_simp
  have t: "piece_type (demo_piece KeyT 3 0) = KeyT" by (simp add: demo_piece_def)
  note inst = collides_sound [OF wf, of 1 "demo_piece KeyT 3 0" 3 0 4 "- 1"]
  from inst ev
  have "\<exists>cy < length (pose_matrix KeyT 1). \<exists>cx < length (pose_matrix KeyT 1 ! cy).
      pose_matrix KeyT 1 ! cy ! cx \<noteq> 0 \<and>
      (3 + int cx < 0 \<or> 3 + int cx \<ge> BOARD_WIDTH \<or> 0 + int cy \<ge> BOARD_HEIGHT \<or>
       (0 + int cy \<ge> 0 \<and> blocked_board ! nat (0 + int cy) ! nat (3 + int cx) \<noteq> None))"
    unfolding t by (simp only: sum.inject simp_thms)
  moreover from inst have "isCellOccupied blocked_board 4 (- 1) = Inr False"
    by (simp add: BOARD_WIDTH_def BOARD_HEIGHT_def)
  ultimately show ?thesis using wf ev by simp
qed

section \<open>Hold, pause and game over\<close>

text \<open>Running a second action on the outcome of a first; a fault of the first stays.\<close>

definition then_reduce :: "fault + GameState \<Rightarrow> entropy \<Rightarrow> Action \<Rightarrow> fault + GameState" where
  "then_reduce r g a = (case r of Inl e \<Rightarrow> Inl e | Inr s \<Rightarrow> reducer g s a)"

text \<open>
  The piece that becomes active after a hold: the held kind, or the next draw from the
  queue when nothing is held, at the spawn pose.
\<close>

definition hold_candidate :: "entropy \<Rightarrow> GameState \<Rightarrow> ActivePiece" where
  "hold_candidate g s =
    \<lparr>piece_type =
       (case holdPiece s of
          Some held \<Rightarrow> held
        | None \<Rightarrow> (case nextQueue s of [] \<Rightarrow> hd (randomBag g) | k # _ \<Rightarrow> k)),
     rotation = 0, position = (3, 0)\<rparr>"

text \<open>Concrete states for evaluating the reducer.\<close>

definition spawn_blocked_board :: Board where
  "spawn_blocked_board = EMPTY_BOARD[1 := (EMPTY_BOARD ! 1)[4 := locked_cell KeyO]]"

definition demo_state :: "Board \<Rightarrow> ActivePiece \<Rightarrow> TetrominoKey list \<Rightarrow> GameState" where
  "demo_state b p q =
    (startingState (\<lambda>_. 0))\<lparr>board := b, current := p, nextQueue := q, status := Playing\<rparr>"

definition all_kinds :: "TetrominoKey list" where
  "all_kinds = [KeyI, KeyJ, KeyL, KeyO, KeyS, KeyT, KeyZ]"

definition zero_entropy :: entropy where
  "zero_entropy = (\<lambda>_. 0)"

definition hold_state :: GameState where
  "hold_state = demo_state EMPTY_BOARD (demo_piece KeyT 3 0) all_kinds"

definition held_state :: GameState where
  "held_state = hold_state\<lparr>current := demo_piece KeyI 3 0, holdPiece := Some KeyT, canHold := False\<rparr>"

definition hold_blocked_state :: GameState where
  "hold_blocked_state = demo_state spawn_blocked_board (demo_piece KeyT 3 5) all_kinds"

definition tick_blocked_state :: GameState where
  "tick_blocked_state = demo_state blocked_board (demo_piece KeyO 3 0) (KeyT # all_kinds)"

definition tick_blocked_merged :: Board where
  "tick_blocked_merged =
     blocked_board[0 := (blocked_board ! 0)[4 := locked_cell KeyO, 5 := locked_cell KeyO],
                   1 := (blocked_board ! 1)[4 := locked_cell KeyO, 5 := locked_cell KeyO]]"

lemma sp_piece_spawnPiece:
  "sp_piece (spawnPiece g q) =
     \<lparr>piece_type = (case q of [] \<Rightarrow> hd (randomBag g) | k # _ \<Rightarrow> k), rotation = 0, position = (3, 0)\<rparr>"
  by (cases q) (simp_all add: spawnPiece_def Let_def)

lemma hold_next_piece:
  "(case holdPiece s of
      Some hold \<Rightarrow> \<lparr>piece_type = hold, rotation = 0, position = (3, 0)\<rparr>
    | None \<Rightarrow> sp_piece (spawnPiece g (nextQueue s))) = hold_candidate g s"
  by (simp add: hold_candidate_def sp_piece_spawnPiece split: option.splits)

lemma reducer_HOLD:
  "reducer g s HOLD =
    (if status s \<noteq> Playing \<or> \<not> canHold s then Inr s
     else (case collides (board s) (hold_candidate g s) None None of
             Inl e \<Rightarrow> Inl e
           | Inr True \<Rightarrow> Inr (s\<lparr>status := Gameover\<rparr>)
           | Inr False \<Rightarrow>
               Inr (s\<lparr>current := hold_candidate g s,
                      holdPiece := Some (piece_type (current s)), canHold := False\<rparr>)))"
  by (simp add: Let_def hold_next_piece)

text \<open>
  C6 (hold single-use). Holding twice in a row is holding once: the second hold returns
  the state the first one produced (and a fault of the first stays a fault). Hold returns
  its input whenever the status is not playing or the hold flag is false; a hold from a
  playing state with the flag set that stays playing has cleared the flag; and on a
  board of the data model hold never faults.
\<close>

theorem hold_single_use:
  "then_reduce (reducer g s HOLD) g' HOLD = reducer g s HOLD \<and>
   (status s \<noteq> Playing \<or> \<not> canHold s \<longrightarrow> reducer g s HOLD = Inr s) \<and>
   (status s = Playing \<and> canHold s \<and> reducer g s HOLD = Inr s' \<and> status s' = Playing
      \<longrightarrow> \<not> canHold s') \<and>
   (wf_board (board s) \<longrightarrow> (\<exists>s''. reducer g s HOLD = Inr s''))"
proof (intro conjI impI)
  show "then_reduce (reducer g s HOLD) g' HOLD = reducer g s HOLD"
    by (simp only: reducer_HOLD then_reduce_def) (auto split: sum.splits bool.splits)
next
  assume "status s \<noteq> Playing \<or> \<not> canHold s"
  then show "reducer g s HOLD = Inr s" by (simp only: reducer_HOLD) auto
next
  assume "status s = Playing \<and> canHold s \<and> reducer g s HOLD = Inr s' \<and> status s' = Playing"
  then show "\<not> canHold s'"
    by (simp only: reducer_HOLD) (auto split: sum.splits bool.splits)
next
  assume wf: "wf_board (board s)"
  have "rotation (hold_candidate g s) = 0" by (simp add: hold_candidate_def)
  with collides_rows_wf [OF wf, of "position (hold_candidate g s)" 0
      "pose_matrix (piece_type (hold_candidate g s)) 0"]
    getPieceMatrix_nonneg [of 0 "piece_type (hold_candidate g s)"]
  obtain c where "collides (board s) (hold_candidate g s) None None = Inr c"
    by (simp add: collides_def)
  then show "\<exists>s''. reducer g s HOLD = Inr s''"
    by (simp only: reducer_HOLD) (auto split: bool.splits)
qed

theorem hold_single_use_witness:
  "status hold_state = Playing \<and> canHold hold_state \<and> wf_board (board hold_state) \<and>
   reducer zero_entropy hold_state HOLD = Inr held_state \<and>
   status held_state = Playing \<and> \<not> canHold held_state \<and>
   reducer zero_entropy held_state HOLD = Inr held_state \<and>
   then_reduce (reducer zero_entropy hold_state HOLD) zero_entropy HOLD = Inr held_state"
proof -
  have e1: "reducer zero_entropy hold_state HOLD = Inr held_state" by code_simp
  have p: "status hold_state = Playing" "canHold hold_state" "status held_state = Playing"
    by code_simp+
  have wf: "wf_board (board hold_state)" by code_simp
  from hold_single_use [of zero_entropy hold_state zero_entropy held_state] e1 p wf
  have a: "\<not> canHold held_state"
    and b: "then_reduce (reducer zero_entropy hold_state HOLD) zero_entropy HOLD = Inr held_state"
    by simp_all
  from hold_single_use [of zero_entropy held_state zero_entropy held_state] a
  have "reducer zero_entropy held_state HOLD = Inr held_state" by simp
  with e1 p wf a b show ?thesis by simp
qed

text \<open>
  C10 (hold-induced game over is atomic). From a playing state with hold available, when
  the piece that would become active collides at the spawn pose, the result is the input
  with only the status changed to game over: board, active piece, held kind, hold flag,
  score and queue are the input's, so a piece drawn from the queue for the attempt is
  not consumed.
\<close>

theorem hold_gameover_atomic:
  assumes "status s = Playing" and "canHold s"
    and "collides (board s) (hold_candidate g s) None None = Inr True"
  shows "\<exists>s'. reducer g s HOLD = Inr s' \<and> s' = s\<lparr>status := Gameover\<rparr> \<and>
           status s' = Gameover \<and> board s' = board s \<and> current s' = current s \<and>
           holdPiece s' = holdPiece s \<and> canHold s' = canHold s \<and> score s' = score s \<and>
           nextQueue s' = nextQueue s"
  using assms by (simp only: reducer_HOLD) simp

theorem hold_gameover_atomic_witness:
  "status hold_blocked_state = Playing \<and> canHold hold_blocked_state \<and>
   holdPiece hold_blocked_state = None \<and>
   collides (board hold_blocked_state) (hold_candidate zero_entropy hold_blocked_state) None None
     = Inr True \<and>
   reducer zero_entropy hold_blocked_state HOLD = Inr (hold_blocked_state\<lparr>status := Gameover\<rparr>) \<and>
   nextQueue (hold_blocked_state\<lparr>status := Gameover\<rparr>) = all_kinds \<and>
   piece_type (hold_candidate zero_entropy (hold_blocked_state\<lparr>holdPiece := Some KeyZ\<rparr>)) = KeyZ \<and>
   reducer zero_entropy (hold_blocked_state\<lparr>holdPiece := Some KeyZ\<rparr>) HOLD
     = Inr (hold_blocked_state\<lparr>holdPiece := Some KeyZ, status := Gameover\<rparr>)"
proof -
  have p: "status hold_blocked_state = Playing" "canHold hold_blocked_state"
    "holdPiece hold_blocked_state = None"
    by code_simp+
  have c: "collides (board hold_blocked_state)
             (hold_candidate zero_entropy hold_blocked_state) None None = Inr True"
    by code_simp
  have q: "nextQueue (hold_blocked_state\<lparr>status := Gameover\<rparr>) = all_kinds" by code_simp
  from hold_gameover_atomic [OF p(1) p(2) c]
  have a: "reducer zero_entropy hold_blocked_state HOLD
      = Inr (hold_blocked_state\<lparr>status := Gameover\<rparr>)"
    by simp
  let ?z = "hold_blocked_state\<lparr>holdPiece := Some KeyZ\<rparr>"
  have pz: "status ?z = Playing" "canHold ?z" using p by simp_all
  have tz: "piece_type (hold_candidate zero_entropy ?z) = KeyZ" by code_simp
  have cz: "collides (board ?z) (hold_candidate zero_entropy ?z) None None = Inr True"
    by code_simp
  from hold_gameover_atomic [OF pz cz]
  have b: "reducer zero_entropy ?z HOLD
      = Inr (hold_blocked_state\<lparr>holdPiece := Some KeyZ, status := Gameover\<rparr>)"
    by simp
  from p c q a tz b show ?thesis by simp
qed

subsection \<open>Merging a piece\<close>

text \<open>
  On a board of the data model \<open>mergePiece\<close> returns a board of the data model: the
  cells of the board that the piece covers hold the piece's kind as locked cells, every
  other cell is the input's.
\<close>

definition in_board :: "int \<Rightarrow> int \<Rightarrow> bool" where
  "in_board x y = (0 \<le> x \<and> x < BOARD_WIDTH \<and> 0 \<le> y \<and> y < BOARD_HEIGHT)"

definition piece_covers :: "ActivePiece \<Rightarrow> int \<Rightarrow> int \<Rightarrow> bool" where
  "piece_covers p X Y =
    (let m = pose_matrix (piece_type p) (rotation p)
     in list_ex (\<lambda>cy. list_ex (\<lambda>cx. m ! cy ! cx \<noteq> 0 \<and> fst (position p) + int cx = X \<and>
                                     snd (position p) + int cy = Y) [0..<length (m ! cy)])
          [0..<length m])"

lemma cloneBoard_id: "cloneBoard b = b"
proof -
  have "(\<lambda>cell :: Cell option. case cell of None \<Rightarrow> None | Some c \<Rightarrow> Some c) = (\<lambda>cell. cell)"
    by (auto split: option.splits)
  then show ?thesis by (simp add: cloneBoard_def)
qed

lemma wf_board_dims:
  assumes "wf_board nb" and "in_board x y"
  shows "nat y < length nb" and "nat x < length (nb ! nat y)"
proof -
  from assms(1) have len: "int (length nb) = BOARD_HEIGHT"
    and rows: "\<forall>n < length nb. int (length (nb ! n)) = BOARD_WIDTH"
    by (simp_all add: wf_board_def list_all_length)
  from assms(2) have xy: "0 \<le> x" "x < BOARD_WIDTH" "0 \<le> y" "y < BOARD_HEIGHT"
    by (simp_all add: in_board_def)
  from len xy show ly: "nat y < length nb" by linarith
  with rows have "int (length (nb ! nat y)) = BOARD_WIDTH" by blast
  with xy show "nat x < length (nb ! nat y)" by linarith
qed

lemma board_write_wf:
  assumes "wf_board nb" and "in_board x y"
  shows "\<exists>nb'. board_write nb y x c = Inr nb' \<and> wf_board nb' \<and>
           (\<forall>X Y. in_board X Y \<longrightarrow>
              nb' ! nat Y ! nat X = (if X = x \<and> Y = y then Some c else nb ! nat Y ! nat X))"
proof -
  note ly = wf_board_dims(1) [OF assms] and lx = wf_board_dims(2) [OF assms]
  let ?nb = "nb[nat y := (nb ! nat y)[nat x := Some c]]"
  have w: "board_write nb y x c = Inr ?nb"
    using assms ly lx by (auto simp: board_write_def in_board_def)
  have wf: "wf_board ?nb"
    using assms(1) ly by (auto simp: wf_board_def list_all_length nth_list_update)
  have "\<forall>X Y. in_board X Y \<longrightarrow>
      ?nb ! nat Y ! nat X = (if X = x \<and> Y = y then Some c else nb ! nat Y ! nat X)"
  proof (intro allI impI)
    fix X Y assume ib: "in_board X Y"
    note wf_board_dims [OF assms(1) ib]
    moreover from ib assms(2) have "nat Y = nat y \<longleftrightarrow> Y = y" "nat X = nat x \<longleftrightarrow> X = x"
      by (auto simp: in_board_def)
    ultimately show "?nb ! nat Y ! nat X = (if X = x \<and> Y = y then Some c else nb ! nat Y ! nat X)"
      using ly lx by (auto simp: nth_list_update)
  qed
  with w wf show ?thesis by blast
qed

lemma merge_row_wf:
  "wf_board nb \<Longrightarrow>
   \<exists>nb'. merge_row nb p y x0 vs = Inr nb' \<and> wf_board nb' \<and>
     (\<forall>X Y. in_board X Y \<longrightarrow>
        nb' ! nat Y ! nat X =
          (if \<exists>i < length vs. vs ! i \<noteq> 0 \<and> fst (position p) + (x0 + int i) = X \<and>
                                 snd (position p) + y = Y
           then Some \<lparr>cell_type = piece_type p, locked = True, clearing = None\<rparr>
           else nb ! nat Y ! nat X))"
proof (induction vs arbitrary: nb x0)
  case Nil
  then show ?case by simp
next
  case (Cons v vs)
  let ?c = "\<lparr>cell_type = piece_type p, locked = True, clearing = None\<rparr>"
  let ?hit = "\<lambda>x0 vs X Y. \<exists>i < length vs. vs ! i \<noteq> 0 \<and> fst (position p) + (x0 + int i) = X \<and>
                                 snd (position p) + y = Y"
  have split: "\<And>X Y. ?hit x0 (v # vs) X Y =
      ((v \<noteq> 0 \<and> fst (position p) + x0 = X \<and> snd (position p) + y = Y) \<or> ?hit (x0 + 1) vs X Y)"
    by (simp add: ex_less_Suc_shift algebra_simps)
  let ?bx = "fst (position p) + x0" and ?by = "snd (position p) + y"
  show ?case
  proof (cases "v \<noteq> 0 \<and> in_board ?bx ?by")
    case True
    from board_write_wf [OF Cons.prems, of ?bx ?by ?c] True
    obtain nb1 where w: "board_write nb ?by ?bx ?c = Inr nb1" and wf1: "wf_board nb1"
      and c1: "\<forall>X Y. in_board X Y \<longrightarrow>
              nb1 ! nat Y ! nat X = (if X = ?bx \<and> Y = ?by then Some ?c else nb ! nat Y ! nat X)"
      by blast
    from Cons.IH [OF wf1, of "x0 + 1"]
    obtain nb' where r: "merge_row nb1 p y (x0 + 1) vs = Inr nb'" and wf': "wf_board nb'"
      and c': "\<forall>X Y. in_board X Y \<longrightarrow>
        nb' ! nat Y ! nat X = (if ?hit (x0 + 1) vs X Y then Some ?c else nb1 ! nat Y ! nat X)"
      by blast
    have m: "merge_row nb p y x0 (v # vs) = Inr nb'"
      using True w r by (simp add: Let_def in_board_def)
    have "\<forall>X Y. in_board X Y \<longrightarrow>
        nb' ! nat Y ! nat X = (if ?hit x0 (v # vs) X Y then Some ?c else nb ! nat Y ! nat X)"
    proof (intro allI impI)
      fix X Y assume ib: "in_board X Y"
      define h1 where "h1 = ?hit (x0 + 1) vs X Y"
      define h0 where "h0 = (v \<noteq> 0 \<and> ?bx = X \<and> ?by = Y)"
      have s: "?hit x0 (v # vs) X Y = (h0 \<or> h1)" unfolding h0_def h1_def by (rule split)
      have a: "nb' ! nat Y ! nat X = (if h1 then Some ?c else nb1 ! nat Y ! nat X)"
        unfolding h1_def using c' ib by blast
      have b: "nb1 ! nat Y ! nat X = (if X = ?bx \<and> Y = ?by then Some ?c else nb ! nat Y ! nat X)"
        using c1 ib by blast
      have h: "h0 = (X = ?bx \<and> Y = ?by)" using True by (auto simp: h0_def)
      show "nb' ! nat Y ! nat X = (if ?hit x0 (v # vs) X Y then Some ?c else nb ! nat Y ! nat X)"
        unfolding s a b h by auto
    qed
    with m wf' show ?thesis by blast
  next
    case False
    from Cons.IH [OF Cons.prems, of "x0 + 1"]
    obtain nb' where r: "merge_row nb p y (x0 + 1) vs = Inr nb'" and wf': "wf_board nb'"
      and c': "\<forall>X Y. in_board X Y \<longrightarrow>
        nb' ! nat Y ! nat X = (if ?hit (x0 + 1) vs X Y then Some ?c else nb ! nat Y ! nat X)"
      by blast
    have m: "merge_row nb p y x0 (v # vs) = Inr nb'"
      using False r by (auto simp: Let_def in_board_def)
    have "\<forall>X Y. in_board X Y \<longrightarrow>
        nb' ! nat Y ! nat X = (if ?hit x0 (v # vs) X Y then Some ?c else nb ! nat Y ! nat X)"
    proof (intro allI impI)
      fix X Y assume ib: "in_board X Y"
      define h1 where "h1 = ?hit (x0 + 1) vs X Y"
      define h0 where "h0 = (v \<noteq> 0 \<and> ?bx = X \<and> ?by = Y)"
      have s: "?hit x0 (v # vs) X Y = (h0 \<or> h1)" unfolding h0_def h1_def by (rule split)
      have a: "nb' ! nat Y ! nat X = (if h1 then Some ?c else nb ! nat Y ! nat X)"
        unfolding h1_def using c' ib by blast
      have h: "h0 = False" using False ib by (auto simp: h0_def)
      show "nb' ! nat Y ! nat X = (if ?hit x0 (v # vs) X Y then Some ?c else nb ! nat Y ! nat X)"
        unfolding s a h by simp
    qed
    with m wf' show ?thesis by blast
  qed
qed


lemma merge_rows_wf:
  "wf_board nb \<Longrightarrow>
   \<exists>nb'. merge_rows nb p y0 m = Inr nb' \<and> wf_board nb' \<and>
     (\<forall>X Y. in_board X Y \<longrightarrow>
        nb' ! nat Y ! nat X =
          (if \<exists>cy < length m. \<exists>cx < length (m ! cy).
                m ! cy ! cx \<noteq> 0 \<and> fst (position p) + int cx = X \<and>
                snd (position p) + (y0 + int cy) = Y
           then Some \<lparr>cell_type = piece_type p, locked = True, clearing = None\<rparr>
           else nb ! nat Y ! nat X))"
proof (induction m arbitrary: nb y0)
  case Nil
  then show ?case by simp
next
  case (Cons row m)
  let ?c = "\<lparr>cell_type = piece_type p, locked = True, clearing = None\<rparr>"
  let ?hit = "\<lambda>y0 m X Y. \<exists>cy < length m. \<exists>cx < length (m ! cy).
                m ! cy ! cx \<noteq> 0 \<and> fst (position p) + int cx = X \<and>
                snd (position p) + (y0 + int cy) = Y"
  let ?top = "\<lambda>X Y. \<exists>i < length row. row ! i \<noteq> 0 \<and> fst (position p) + (0 + int i) = X \<and>
                                 snd (position p) + y0 = Y"
  have split: "\<And>X Y. ?hit y0 (row # m) X Y = (?top X Y \<or> ?hit (y0 + 1) m X Y)"
    by (simp add: ex_less_Suc_shift algebra_simps)
  from merge_row_wf [OF Cons.prems, of p y0 0 row]
  obtain nb1 where r1: "merge_row nb p y0 0 row = Inr nb1" and wf1: "wf_board nb1"
    and c1: "\<forall>X Y. in_board X Y \<longrightarrow>
        nb1 ! nat Y ! nat X = (if ?top X Y then Some ?c else nb ! nat Y ! nat X)"
    by blast
  from Cons.IH [OF wf1, of "y0 + 1"]
  obtain nb' where r: "merge_rows nb1 p (y0 + 1) m = Inr nb'" and wf': "wf_board nb'"
    and c': "\<forall>X Y. in_board X Y \<longrightarrow>
        nb' ! nat Y ! nat X = (if ?hit (y0 + 1) m X Y then Some ?c else nb1 ! nat Y ! nat X)"
    by blast
  have m: "merge_rows nb p y0 (row # m) = Inr nb'" using r1 r by simp
  have "\<forall>X Y. in_board X Y \<longrightarrow>
        nb' ! nat Y ! nat X = (if ?hit y0 (row # m) X Y then Some ?c else nb ! nat Y ! nat X)"
  proof (intro allI impI)
    fix X Y assume ib: "in_board X Y"
    define h1 where "h1 = ?hit (y0 + 1) m X Y"
    define h0 where "h0 = ?top X Y"
    have s: "?hit y0 (row # m) X Y = (h0 \<or> h1)" unfolding h0_def h1_def by (rule split)
    have a: "nb' ! nat Y ! nat X = (if h1 then Some ?c else nb1 ! nat Y ! nat X)"
      unfolding h1_def using c' ib by blast
    have b: "nb1 ! nat Y ! nat X = (if h0 then Some ?c else nb ! nat Y ! nat X)"
      unfolding h0_def using c1 ib by blast
    show "nb' ! nat Y ! nat X = (if ?hit y0 (row # m) X Y then Some ?c else nb ! nat Y ! nat X)"
      unfolding s a b by auto
  qed
  with m wf' show ?case by blast
qed

lemma mergePiece_wf:
  assumes "wf_board b" and "0 \<le> rotation p"
  shows "\<exists>merged. mergePiece b p = Inr merged \<and> wf_board merged \<and>
     (\<forall>X Y. in_board X Y \<longrightarrow>
        merged ! nat Y ! nat X =
          (if piece_covers p X Y
           then Some \<lparr>cell_type = piece_type p, locked = True, clearing = None\<rparr>
           else b ! nat Y ! nat X))"
proof -
  have cov: "\<And>X Y. piece_covers p X Y =
      (\<exists>cy < length (pose_matrix (piece_type p) (rotation p)).
       \<exists>cx < length (pose_matrix (piece_type p) (rotation p) ! cy).
          pose_matrix (piece_type p) (rotation p) ! cy ! cx \<noteq> 0 \<and>
          fst (position p) + int cx = X \<and> snd (position p) + (0 + int cy) = Y)"
    by (auto simp: piece_covers_def Let_def list_ex_iff)
  from merge_rows_wf [OF assms(1), of p 0 "pose_matrix (piece_type p) (rotation p)"]
  show ?thesis
    unfolding cov mergePiece_def getPieceMatrix_nonneg [OF assms(2)] cloneBoard_id
    by simp
qed

text \<open>
  C8 (game over on a blocked spawn keeps the merged board). In a playing state, when the
  lock of TICK (the piece cannot move down) or of HARD_DROP (after the drop loop) merges
  the piece into a board with no full row and the piece then drawn from the queue
  collides at its spawn pose, the result has status game over and its board is that
  merged board. The merged board of a piece is the input board with the cells the piece
  covers written as locked cells of the piece's kind.
\<close>

theorem lock_gameover_keeps_merged:
  assumes "status s = Playing"
    and "findFullLines merged = []"
    and "collides merged (sp_piece (spawnPiece g (nextQueue s))) None None = Inr True"
  shows "(collides (board s) (current s)
            (Some (fst (position (current s)), snd (position (current s)) + 1)) None = Inr True \<and>
          mergePiece (board s) (current s) = Inr merged
            \<longrightarrow> (\<exists>s'. reducer g s TICK = Inr s' \<and> status s' = Gameover \<and> board s' = merged)) \<and>
         (drop_loop (board s) (current s) 0 = Inr d \<and>
          mergePiece (board s)
            ((current s)\<lparr>position := (fst (position (current s)),
                                       snd (position (current s)) + d)\<rparr>) = Inr merged
            \<longrightarrow> (\<exists>s'. reducer g s HARD_DROP = Inr s' \<and> status s' = Gameover \<and> board s' = merged)) \<and>
         (wf_board (board s) \<and> 0 \<le> rotation p \<longrightarrow>
            (\<exists>m. mergePiece (board s) p = Inr m \<and> wf_board m \<and>
               (\<forall>X Y. in_board X Y \<longrightarrow>
                  m ! nat Y ! nat X =
                    (if piece_covers p X Y
                     then Some \<lparr>cell_type = piece_type p, locked = True, clearing = None\<rparr>
                     else board s ! nat Y ! nat X))))"
proof (intro conjI impI)
  assume "collides (board s) (current s)
            (Some (fst (position (current s)), snd (position (current s)) + 1)) None = Inr True \<and>
          mergePiece (board s) (current s) = Inr merged"
  with assms show "\<exists>s'. reducer g s TICK = Inr s' \<and> status s' = Gameover \<and> board s' = merged"
    by (simp add: Let_def)
next
  assume "drop_loop (board s) (current s) 0 = Inr d \<and>
          mergePiece (board s)
            ((current s)\<lparr>position := (fst (position (current s)),
                                       snd (position (current s)) + d)\<rparr>) = Inr merged"
  with assms show "\<exists>s'. reducer g s HARD_DROP = Inr s' \<and> status s' = Gameover \<and> board s' = merged"
    by (simp add: Let_def)
next
  assume "wf_board (board s) \<and> 0 \<le> rotation p"
  then show "\<exists>m. mergePiece (board s) p = Inr m \<and> wf_board m \<and>
               (\<forall>X Y. in_board X Y \<longrightarrow>
                  m ! nat Y ! nat X =
                    (if piece_covers p X Y
                     then Some \<lparr>cell_type = piece_type p, locked = True, clearing = None\<rparr>
                     else board s ! nat Y ! nat X))"
    using mergePiece_wf [of "board s" p] by blast
qed

theorem lock_gameover_keeps_merged_witness:
  "status tick_blocked_state = Playing \<and>
   findFullLines tick_blocked_merged = [] \<and>
   collides tick_blocked_merged
     (sp_piece (spawnPiece zero_entropy (nextQueue tick_blocked_state))) None None = Inr True \<and>
   collides (board tick_blocked_state) (current tick_blocked_state) (Some (3, 1)) None = Inr True \<and>
   mergePiece (board tick_blocked_state) (current tick_blocked_state) = Inr tick_blocked_merged \<and>
   drop_loop (board tick_blocked_state) (current tick_blocked_state) 0 = Inr 0 \<and>
   (\<exists>s'. reducer zero_entropy tick_blocked_state TICK = Inr s' \<and> status s' = Gameover \<and>
         board s' = tick_blocked_merged) \<and>
   (\<exists>s'. reducer zero_entropy tick_blocked_state HARD_DROP = Inr s' \<and> status s' = Gameover \<and>
         board s' = tick_blocked_merged) \<and>
   wf_board (board tick_blocked_state) \<and> wf_board tick_blocked_merged \<and>
   in_board 4 0 \<and> piece_covers (current tick_blocked_state) 4 0 \<and>
   tick_blocked_merged ! 0 ! 4 = locked_cell KeyO \<and>
   in_board 4 2 \<and> \<not> piece_covers (current tick_blocked_state) 4 2 \<and>
   tick_blocked_merged ! 2 ! 4 = board tick_blocked_state ! 2 ! 4"
proof -
  let ?s = tick_blocked_state
  have p: "status ?s = Playing" by code_simp
  have f: "findFullLines tick_blocked_merged = []" by code_simp
  have c: "collides tick_blocked_merged
     (sp_piece (spawnPiece zero_entropy (nextQueue ?s))) None None = Inr True"
    by code_simp
  have pos: "fst (position (current ?s)) = 3" "snd (position (current ?s)) = 0" by code_simp+
  have c1: "collides (board ?s) (current ?s) (Some (3, 1)) None = Inr True" by code_simp
  have m: "mergePiece (board ?s) (current ?s) = Inr tick_blocked_merged" by code_simp
  have d: "drop_loop (board ?s) (current ?s) 0 = Inr 0" by code_simp
  have cur: "(current ?s)\<lparr>position := (3, 0)\<rparr> = current ?s" by code_simp
  have wf: "wf_board (board ?s)" by code_simp
  have r: "0 \<le> rotation (current ?s)" by code_simp
  have ib: "in_board 4 0" "in_board 4 2" by code_simp+
  have cov: "piece_covers (current ?s) 4 0" "\<not> piece_covers (current ?s) 4 2" by code_simp+
  have t: "piece_type (current ?s) = KeyO" by code_simp
  note inst = lock_gameover_keeps_merged [OF p f c, of 0 "current ?s"]
  from inst c1 m d pos cur
  have a: "(\<exists>s'. reducer zero_entropy ?s TICK = Inr s' \<and> status s' = Gameover \<and>
         board s' = tick_blocked_merged) \<and>
   (\<exists>s'. reducer zero_entropy ?s HARD_DROP = Inr s' \<and> status s' = Gameover \<and>
         board s' = tick_blocked_merged)"
    by simp
  from inst wf r m
  have b: "wf_board tick_blocked_merged \<and>
     (\<forall>X Y. in_board X Y \<longrightarrow>
        tick_blocked_merged ! nat Y ! nat X =
          (if piece_covers (current ?s) X Y
           then Some \<lparr>cell_type = piece_type (current ?s), locked = True, clearing = None\<rparr>
           else board ?s ! nat Y ! nat X))"
    by simp
  from b ib(1) cov(1) t have e1: "tick_blocked_merged ! nat 0 ! nat 4 = locked_cell KeyO"
    unfolding locked_cell_def by metis
  from b ib(2) cov(2) have e2: "tick_blocked_merged ! nat 2 ! nat 4 = board ?s ! nat 2 ! nat 4"
    by metis
  from p f c c1 m d a b wf ib cov e1 e2 show ?thesis by simp
qed

text \<open>
  C9 (pause toggle scope), as the code has it: PAUSE_TOGGLE has no guard on the status.
  From the idle starting state it returns a paused state, not its input, and from a
  game-over state it returns a paused state as well.
\<close>

theorem pause_toggle_outside_scope:
  "reducer g (startingState g') PAUSE_TOGGLE = Inr ((startingState g')\<lparr>status := Paused\<rparr>) \<and>
   reducer g (startingState g') PAUSE_TOGGLE \<noteq> Inr (startingState g') \<and>
   reducer g (s\<lparr>status := Gameover\<rparr>) PAUSE_TOGGLE = Inr (s\<lparr>status := Paused\<rparr>)"
proof -
  have "status (startingState g') = Idle" by (simp add: startingState_def Let_def)
  moreover have "status ((startingState g')\<lparr>status := Paused\<rparr>) = Paused" by simp
  ultimately have "(startingState g')\<lparr>status := Paused\<rparr> \<noteq> startingState g'"
    by (metis GameStateStatus.distinct(3))
  then show ?thesis by (simp add: startingState_def Let_def)
qed

section \<open>Queue refill\<close>

text \<open>The shuffle only swaps entries, so a bag holds each of the seven kinds once.\<close>

lemma shuffle_loop_mset: "n < length bag \<Longrightarrow> mset (shuffle_loop n g bag) = mset bag"
proof (induction n arbitrary: g bag)
  case 0
  then show ?case by simp
next
  case (Suc n)
  let ?j = "g 0 mod (Suc n + 1)"
  let ?bag = "bag[Suc n := bag ! ?j, ?j := bag ! Suc n]"
  have "?j < Suc n + 1" by (rule mod_less_divisor) simp
  with Suc.prems have j: "?j < length bag" by linarith
  have "mset (shuffle_loop n (advance 1 g) ?bag) = mset ?bag"
    using Suc.prems by (intro Suc.IH) simp
  also have "\<dots> = mset bag"
    using mset_swap [OF j Suc.prems] .
  finally show ?case by (simp add: Let_def)
qed

lemma randomBag_mset: "mset (randomBag g) = mset all_kinds"
  by (simp add: randomBag_def all_kinds_def shuffle_loop_mset)

lemma randomBag_length: "length (randomBag g) = 7"
  using randomBag_mset [of g, THEN arg_cong, of size] by (simp add: all_kinds_def)

text \<open>
  C7 (queue non-starvation). Whatever the queue and the entropy, the queue that
  \<open>spawnPiece\<close> returns has at least seven pieces. The piece drawn is the front of the
  queue at the spawn pose; the rest is returned, followed by a fresh bag when it has seven
  pieces or fewer. An empty queue is first filled with a bag, which then is the one drawn
  from. Every bag is a permutation of the seven kinds.
\<close>

theorem spawnPiece_refill:
  "7 \<le> length (sp_queue (spawnPiece g q)) \<and>
   mset (randomBag g') = mset all_kinds \<and>
   rotation (sp_piece (spawnPiece g q)) = 0 \<and> position (sp_piece (spawnPiece g q)) = (3, 0) \<and>
   (q \<noteq> [] \<longrightarrow>
      piece_type (sp_piece (spawnPiece g q)) = hd q \<and>
      sp_queue (spawnPiece g q) = (if length (tl q) \<le> 7 then tl q @ randomBag g else tl q)) \<and>
   (q = [] \<longrightarrow>
      piece_type (sp_piece (spawnPiece g q)) = hd (randomBag g) \<and>
      sp_queue (spawnPiece g q) = tl (randomBag g) @ randomBag (advance 6 g))"
proof (cases "q = []")
  case True
  then show ?thesis
    by (simp add: spawnPiece_def Let_def randomBag_length randomBag_mset)
next
  case False
  then show ?thesis
    by (simp add: spawnPiece_def Let_def randomBag_length randomBag_mset)
qed

theorem spawnPiece_refill_witness:
  "all_kinds \<noteq> [] \<and>
   sp_queue (spawnPiece zero_entropy all_kinds) =
     [KeyJ, KeyL, KeyO, KeyS, KeyT, KeyZ] @ randomBag zero_entropy \<and>
   length (sp_queue (spawnPiece zero_entropy all_kinds)) = 13 \<and>
   piece_type (sp_piece (spawnPiece zero_entropy all_kinds)) = KeyI \<and>
   sp_queue (spawnPiece zero_entropy []) =
     tl (randomBag zero_entropy) @ randomBag (advance 6 zero_entropy) \<and>
   length (sp_queue (spawnPiece zero_entropy [])) = 13"
proof -
  have ne: "all_kinds \<noteq> []" by (simp add: all_kinds_def)
  have tl: "tl all_kinds = [KeyJ, KeyL, KeyO, KeyS, KeyT, KeyZ]" "hd all_kinds = KeyI"
    by (simp_all add: all_kinds_def)
  from spawnPiece_refill [of zero_entropy all_kinds zero_entropy] ne tl
  have a: "sp_queue (spawnPiece zero_entropy all_kinds) =
     [KeyJ, KeyL, KeyO, KeyS, KeyT, KeyZ] @ randomBag zero_entropy"
    and b: "piece_type (sp_piece (spawnPiece zero_entropy all_kinds)) = KeyI"
    by simp_all
  from spawnPiece_refill [of zero_entropy "[]" zero_entropy]
  have c: "sp_queue (spawnPiece zero_entropy []) =
     tl (randomBag zero_entropy) @ randomBag (advance 6 zero_entropy)"
    by simp
  have l: "length (sp_queue (spawnPiece zero_entropy all_kinds)) = 13"
    "length (sp_queue (spawnPiece zero_entropy [])) = 13"
    by code_simp+
  from ne a b c l show ?thesis by simp
qed

section \<open>Row collapse\<close>

text \<open>
  Each step of \<open>clearFullLines\<close> removes one row and puts an empty row on top, so the
  rows above the removed one move down by one and the rows below it stay. With the
  indices in increasing order, each index therefore still names its original row when
  its turn comes.
\<close>

definition collapsed_board :: Board where
  "collapsed_board = EMPTY_BOARD[4 := (EMPTY_BOARD ! 4)[4 := locked_cell KeyO]]"

lemma splice1_in_range:
  "0 \<le> l \<Longrightarrow> l < int (length xs) \<Longrightarrow> splice1 l xs = take (nat l) xs @ drop (Suc (nat l)) xs"
  by (simp add: splice1_def Let_def min_def)

lemma collapse_fold:
  "sorted_wrt (<) ls \<Longrightarrow>
   \<forall>l \<in> set ls. int (length pre) \<le> l \<and> l < int (length pre + length post) \<Longrightarrow>
   foldl (\<lambda>nextBoard line. e # splice1 line nextBoard) (pre @ post) ls =
     replicate (length ls) e @ pre @ nths post {i. int (i + length pre) \<notin> set ls}"
proof (induction ls arbitrary: pre post)
  case Nil
  then show ?case by (simp add: nths_all)
next
  case (Cons l ls)
  define j where "j = nat l - length pre"
  from Cons.prems(2) have l: "int (length pre) \<le> l" "l < int (length pre + length post)"
    by simp_all
  then have j: "j < length post" and lj: "nat l = length pre + j"
    by (simp_all add: j_def)
  define pre' where "pre' = e # pre @ take j post"
  define post' where "post' = drop (Suc j) post"
  have len': "length pre' = Suc (nat l)" using j by (simp add: pre'_def lj)
  have tot: "length pre' + length post' = length pre + length post"
    using j by (simp add: pre'_def post'_def)
  have step: "e # splice1 l (pre @ post) = pre' @ post'"
    using l j by (simp add: splice1_in_range lj pre'_def post'_def)

  from Cons.prems(1) have gt: "\<forall>l' \<in> set ls. l < l'" and srt: "sorted_wrt (<) ls"
    by simp_all
  have rng: "\<forall>l' \<in> set ls. int (length pre') \<le> l' \<and> l' < int (length pre' + length post')"
  proof
    fix l' assume a: "l' \<in> set ls"
    with gt have "l < l'" by simp
    moreover from a Cons.prems(2) have "l' < int (length pre + length post)" by simp
    moreover have "int (length pre') = l + 1" using len' l by simp
    moreover have "int (length pre' + length post') = int (length pre + length post)"
      using tot by simp
    ultimately show "int (length pre') \<le> l' \<and> l' < int (length pre' + length post')"
      by linarith
  qed
  have ih: "foldl (\<lambda>nextBoard line. e # splice1 line nextBoard) (pre' @ post') ls =
     replicate (length ls) e @ pre' @ nths post' {i. int (i + length pre') \<notin> set ls}"
    by (rule Cons.IH [OF srt rng])
  define A where "A = {i. int (i + length pre) \<notin> set (l # ls)}"
  have lint: "int (j + length pre) = l" using lj l by linarith
  have post: "post = take j post @ post ! j # post'"
    using j by (simp add: id_take_nth_drop post'_def)
  have tk: "length (take j post) = j" using j by simp
  have low: "nths (take j post) A = take j post"
  proof (rule nths_all, intro allI impI)
    fix i assume "i < length (take j post)"
    then have "i < j" by simp
    then have "int (i + length pre) < l" using lint by linarith
    with gt show "i \<in> A" by (auto simp: A_def)
  qed
  have mid: "j \<notin> A" using lint by (simp add: A_def)
  have up: "{k. Suc (k + j) \<in> A} = {i. int (i + length pre') \<notin> set ls}"
  proof (rule set_eqI)
    fix k
    have e: "int (Suc (k + j) + length pre) = int (k + length pre')"
      using len' lint by simp
    have ne: "int (k + length pre') \<noteq> l" using len' l by simp
    show "k \<in> {k. Suc (k + j) \<in> A} \<longleftrightarrow> k \<in> {i. int (i + length pre') \<notin> set ls}"
      unfolding mem_Collect_eq A_def e using ne by simp
  qed
  have "nths post A = nths (take j post @ post ! j # post') A"
    using post by simp
  also have "\<dots> = nths (take j post) A @ nths (post ! j # post') {k. k + j \<in> A}"
    by (simp only: nths_append tk)
  also have "\<dots> = take j post @ nths post' {k. Suc (k + j) \<in> A}"
    using mid by (simp add: low nths_Cons)
  finally have nths_eq: "nths post A = take j post @ nths post' {i. int (i + length pre') \<notin> set ls}"
    by (simp only: up)
  have "foldl (\<lambda>nextBoard line. e # splice1 line nextBoard) (pre @ post) (l # ls)
      = foldl (\<lambda>nextBoard line. e # splice1 line nextBoard) (pre' @ post') ls"
    by (simp add: step)
  also have "\<dots> = replicate (length ls) e @ pre' @ nths post' {i. int (i + length pre') \<notin> set ls}"
    by (rule ih)
  also have "\<dots> = replicate (length (l # ls)) e @ pre @ nths post A"
    by (simp add: nths_eq pre'_def replicate_app_Cons_same)
  finally show ?case unfolding A_def .
qed


lemma collapse_length:
  "\<forall>l \<in> set ls. 0 \<le> l \<and> l < int (length nb) \<Longrightarrow>
     length (foldl (\<lambda>nextBoard line. e # splice1 line nextBoard) nb ls) = length nb"
proof (induction ls arbitrary: nb)
  case Nil
  then show ?case by simp
next
  case (Cons l ls)
  then have l: "0 \<le> l" "l < int (length nb)" by simp_all
  then have len: "length (e # splice1 l nb) = length nb"
    by (simp add: splice1_in_range)
  with Cons.prems have "\<forall>l' \<in> set ls. 0 \<le> l' \<and> l' < int (length (e # splice1 l nb))"
    by simp
  from Cons.IH [OF this] len show ?case by simp
qed

lemma findFullLines_from_sorted:
  "sorted_wrt (<) (findFullLines_from y b) \<and>
   (\<forall>l \<in> set (findFullLines_from y b). y \<le> l \<and> l < y + int (length b))"
proof (induction b arbitrary: y)
  case Nil
  then show ?case by simp
next
  case (Cons row b)
  from Cons.IH [of "y + 1"] show ?case by force
qed

text \<open>
  C5 (row-collapse correctness). On an empty list \<open>clearFullLines\<close> returns its input.
  For row indices of the board listed from top to bottom (strictly increasing, each in
  range), the result is \<open>|rows|\<close> empty rows of width \<open>BOARD_WIDTH\<close> followed by the
  rows that are not listed, in their original order; it has the height of the input, and
  its rows have width \<open>BOARD_WIDTH\<close> when the input's have. The list that
  \<open>findFullLines\<close> returns is of that kind.
\<close>

theorem clearFullLines_collapse:
  "clearFullLines b [] = b \<and>
   (sorted_wrt (<) ls \<and> (\<forall>l \<in> set ls. 0 \<le> l \<and> l < int (length b)) \<longrightarrow>
      clearFullLines b ls =
        replicate (length ls) (replicate (nat BOARD_WIDTH) None) @ nths b {i. int i \<notin> set ls} \<and>
      length (clearFullLines b ls) = length b \<and>
      (list_all (\<lambda>row. int (length row) = BOARD_WIDTH) b \<longrightarrow>
         list_all (\<lambda>row. int (length row) = BOARD_WIDTH) (clearFullLines b ls))) \<and>
   sorted_wrt (<) (findFullLines b) \<and>
   (\<forall>l \<in> set (findFullLines b). 0 \<le> l \<and> l < int (length b))"
proof (intro conjI impI)
  show "clearFullLines b [] = b" by (simp add: clearFullLines_def)
next
  assume a: "sorted_wrt (<) ls \<and> (\<forall>l \<in> set ls. 0 \<le> l \<and> l < int (length b))"
  show "clearFullLines b ls =
        replicate (length ls) (replicate (nat BOARD_WIDTH) None) @ nths b {i. int i \<notin> set ls}"
    using a collapse_fold [of ls "[]" b "replicate (nat BOARD_WIDTH) None"]
    by (simp add: clearFullLines_def cloneBoard_id nths_all)
next
  assume a: "sorted_wrt (<) ls \<and> (\<forall>l \<in> set ls. 0 \<le> l \<and> l < int (length b))"
  then show "length (clearFullLines b ls) = length b"
    using collapse_length [of ls b "replicate (nat BOARD_WIDTH) None"]
    by (simp add: clearFullLines_def cloneBoard_id)
next
  assume a: "sorted_wrt (<) ls \<and> (\<forall>l \<in> set ls. 0 \<le> l \<and> l < int (length b))"
    and w: "list_all (\<lambda>row. int (length row) = BOARD_WIDTH) b"
  have eq: "clearFullLines b ls =
        replicate (length ls) (replicate (nat BOARD_WIDTH) None) @ nths b {i. int i \<notin> set ls}"
    using a collapse_fold [of ls "[]" b "replicate (nat BOARD_WIDTH) None"]
    by (simp add: clearFullLines_def cloneBoard_id nths_all)
  have "set (nths b {i. int i \<notin> set ls}) \<subseteq> set b" by (rule set_nths_subset)
  with w show "list_all (\<lambda>row. int (length row) = BOARD_WIDTH) (clearFullLines b ls)"
    unfolding eq by (auto simp: list_all_iff BOARD_WIDTH_def)
next
  show "sorted_wrt (<) (findFullLines b)"
    using findFullLines_from_sorted [of 0 b] by (simp add: findFullLines_def)
next
  show "\<forall>l \<in> set (findFullLines b). 0 \<le> l \<and> l < int (length b)"
    using findFullLines_from_sorted [of 0 b] by (simp add: findFullLines_def)
qed

theorem clearFullLines_collapse_witness:
  "sorted_wrt (<) [5, 21 :: int] \<and> (0::int) \<le> 5 \<and> 21 < int (length blocked_board) \<and>
   list_all (\<lambda>row. int (length row) = BOARD_WIDTH) blocked_board \<and>
   clearFullLines blocked_board [5, 21] = collapsed_board \<and>
   collapsed_board =
     replicate 2 (replicate (nat BOARD_WIDTH) None) @ nths blocked_board {i. int i \<notin> set [5, 21]} \<and>
   length (clearFullLines blocked_board [5, 21]) = length blocked_board \<and>
   list_all (\<lambda>row. int (length row) = BOARD_WIDTH) (clearFullLines blocked_board [5, 21])"
proof -
  have h1: "sorted_wrt (<) [5, 21 :: int]" by simp
  have h2: "\<forall>l \<in> set [5, 21 :: int]. 0 \<le> l \<and> l < int (length blocked_board)"
    by (simp add: blocked_board_def EMPTY_BOARD_def BOARD_HEIGHT_def)
  have h3: "list_all (\<lambda>row. int (length row) = BOARD_WIDTH) blocked_board"
    using wf_blocked_board by (simp add: wf_board_def)
  have ev: "clearFullLines blocked_board [5, 21] = collapsed_board" by code_simp
  from clearFullLines_collapse [of blocked_board "[5, 21]"] h1 h2 h3
  have "clearFullLines blocked_board [5, 21] =
        replicate (length [5, 21 :: int]) (replicate (nat BOARD_WIDTH) None) @
          nths blocked_board {i. int i \<notin> set [5, 21]}"
    and "length (clearFullLines blocked_board [5, 21]) = length blocked_board"
    and "list_all (\<lambda>row. int (length row) = BOARD_WIDTH) (clearFullLines blocked_board [5, 21])"
    by blast+
  with h1 h2 h3 ev show ?thesis by (simp add: numeral_2_eq_2)
qed

section \<open>Rotation\<close>

text \<open>
  The rotation as the specification words it: the target index \<open>(current + direction) mod 4\<close>,
  the kick list of the pair (from, to) (a single zero offset for the O piece, the I table
  for the I piece, the shared table for the other five), the first offset in list order
  whose pose does not collide, and the unchanged state when there is none.
\<close>

definition spec_kicks :: "TetrominoKey \<Rightarrow> int \<Rightarrow> int \<Rightarrow> (int \<times> int) list" where
  "spec_kicks t from to =
    (if t = KeyO then [(0, 0)]
     else (case map_of (if t = KeyI then SRS_KICKS_I else SRS_KICKS_DEFAULT) (from, to) of
             Some ks \<Rightarrow> ks
           | None \<Rightarrow> []))"

definition spec_rotate :: "GameState \<Rightarrow> Direction \<Rightarrow> GameState" where
  "spec_rotate s d =
    (let cur = current s;
         target = (rotation cur + direction_value d) mod 4;
         kicks = spec_kicks (piece_type cur) (rotation cur mod 4) target;
         candidate = (\<lambda>k. (fst (position cur) + fst k, snd (position cur) + snd k));
         fits = (\<lambda>k. collides (board s) cur (Some (candidate k)) (Some target) = Inr False)
     in case find fits kicks of
          None \<Rightarrow> s
        | Some k \<Rightarrow> s\<lparr>current := cur\<lparr>position := candidate k, rotation := target\<rparr>\<rparr>)"

definition wall_state :: GameState where
  "wall_state = demo_state EMPTY_BOARD \<lparr>piece_type = KeyT, rotation = 1, position = (- 1, 5)\<rparr> all_kinds"

definition kicked_state :: GameState where
  "kicked_state = wall_state\<lparr>current := \<lparr>piece_type = KeyT, rotation = 2, position = (0, 5)\<rparr>\<rparr>"

definition packed_state :: GameState where
  "packed_state =
     demo_state (replicate 21 (replicate 10 (locked_cell KeyJ)) @
                 [[locked_cell KeyJ, locked_cell KeyJ, locked_cell KeyJ, None, None, None, None,
                   locked_cell KeyJ, locked_cell KeyJ, locked_cell KeyJ]])
       (demo_piece KeyI 3 20) all_kinds"

lemma collides_total:
  "wf_board b \<Longrightarrow> 0 \<le> r \<Longrightarrow> \<exists>c. collides b p (Some pos) (Some r) = Inr c"
  using collides_rows_wf [of b pos 0 "pose_matrix (piece_type p) r"]
    getPieceMatrix_nonneg [of r "piece_type p"]
  by (simp add: collides_def)

lemma kick_loop_find:
  assumes "wf_board b" and "0 \<le> nr"
  shows "kick_loop b p nr ks =
     Inr (map_option (\<lambda>k. ((fst (position p) + fst k, snd (position p) + snd k), nr))
            (find (\<lambda>k. collides b p (Some (fst (position p) + fst k, snd (position p) + snd k))
                           (Some nr) = Inr False) ks))"
proof (induction ks)
  case Nil
  show ?case by simp
next
  case (Cons k ks)
  obtain c where c: "collides b p (Some (fst (position p) + fst k, snd (position p) + snd k))
      (Some nr) = Inr c"
    using collides_total [OF assms] by blast
  show ?case by (cases c) (simp_all add: c Cons.IH Let_def)
qed

lemma next_rotation_mod:
  "0 \<le> r \<Longrightarrow> js_rem (r + direction_value d + 4) 4 = (r + direction_value d) mod 4"
proof -
  assume r: "0 \<le> r"
  have "0 \<le> r + direction_value d + 4" using r by (cases d) simp_all
  then have "js_rem (r + direction_value d + 4) 4 = (r + direction_value d + 4) mod 4"
    by (simp add: js_rem_def)
  also have "\<dots> = (r + direction_value d) mod 4" by presburger
  finally show ?thesis .
qed

lemma rotation_key_mod:
  "0 \<le> r \<Longrightarrow> getRotationKey r ((r + direction_value d) mod 4) = (r mod 4, (r + direction_value d) mod 4)"
  by (simp add: getRotationKey_def js_rem_def)

lemma mod4_cases: "(r::int) mod 4 = 0 \<or> r mod 4 = 1 \<or> r mod 4 = 2 \<or> r mod 4 = 3"
  by presburger

lemma kick_tables_defined:
  "map_of SRS_KICKS_I (r mod 4, (r + direction_value d) mod 4) \<noteq> None \<and>
   map_of SRS_KICKS_DEFAULT (r mod 4, (r + direction_value d) mod 4) \<noteq> None"
proof -
  have e: "(r + direction_value d) mod 4 = (r mod 4 + direction_value d) mod 4"
    by (simp add: mod_add_left_eq)
  from mod4_cases [of r] show ?thesis
    unfolding e by (cases d) (auto simp: SRS_KICKS_I_def SRS_KICKS_DEFAULT_def)
qed

lemma applyKickTests_spec:
  assumes "wf_board b" and "0 \<le> rotation p"
  shows "applyKickTests b p d =
     Inr (map_option (\<lambda>k. ((fst (position p) + fst k, snd (position p) + snd k),
                              (rotation p + direction_value d) mod 4))
            (find (\<lambda>k. collides b p (Some (fst (position p) + fst k, snd (position p) + snd k))
                           (Some ((rotation p + direction_value d) mod 4)) = Inr False)
               (spec_kicks (piece_type p) (rotation p mod 4) ((rotation p + direction_value d) mod 4))))"
proof -
  let ?nr = "(rotation p + direction_value d) mod 4"
  have nr: "0 \<le> ?nr" by simp
  from kick_tables_defined [of "rotation p" d]
  obtain ki kd where ki: "map_of SRS_KICKS_I (rotation p mod 4, ?nr) = Some ki"
    and kd: "map_of SRS_KICKS_DEFAULT (rotation p mod 4, ?nr) = Some kd"
    by auto
  show ?thesis
    unfolding applyKickTests_def Let_def next_rotation_mod [OF assms(2)]
      rotation_key_mod [OF assms(2)] kick_loop_find [OF assms(1) nr]
    by (simp add: spec_kicks_def ki kd)
qed

text \<open>
  C4 (rotation resolution). On a board of the data model and with a rotation index that
  is not negative, ROTATE in a playing state returns exactly the state the worded
  resolution describes; in any other status it returns its input.
\<close>

theorem rotate_resolution:
  assumes "wf_board (board s)" and "0 \<le> rotation (current s)"
  shows "(status s = Playing \<longrightarrow> reducer g s (ROTATE d) = Inr (spec_rotate s d)) \<and>
         (status s \<noteq> Playing \<longrightarrow> reducer g s (ROTATE d) = Inr s)"
proof (intro conjI impI)
  assume p: "status s = Playing"
  show "reducer g s (ROTATE d) = Inr (spec_rotate s d)"
    using p by (simp add: applyKickTests_spec [OF assms] spec_rotate_def Let_def
          split: option.splits)
next
  assume "status s \<noteq> Playing"
  then show "reducer g s (ROTATE d) = Inr s" by simp
qed

theorem rotate_resolution_witness:
  "wf_board (board wall_state) \<and> 0 \<le> rotation (current wall_state) \<and>
   status wall_state = Playing \<and>
   spec_kicks KeyT 1 2 = [(0, 0), (1, 0), (1, - 1), (0, 2), (1, 2)] \<and>
   collides (board wall_state) (current wall_state) (Some (- 1, 5)) (Some 2) = Inr True \<and>
   collides (board wall_state) (current wall_state) (Some (0, 5)) (Some 2) = Inr False \<and>
   spec_rotate wall_state Plus1 = kicked_state \<and>
   reducer zero_entropy wall_state (ROTATE Plus1) = Inr kicked_state \<and>
   reducer zero_entropy (wall_state\<lparr>status := Paused\<rparr>) (ROTATE Plus1)
     = Inr (wall_state\<lparr>status := Paused\<rparr>) \<and>
   wf_board (board packed_state) \<and> 0 \<le> rotation (current packed_state) \<and>
   status packed_state = Playing \<and>
   find (\<lambda>k. collides (board packed_state) (current packed_state)
                  (Some (3 + fst k, 20 + snd k)) (Some 1) = Inr False) (spec_kicks KeyI 0 1) = None \<and>
   reducer zero_entropy packed_state (ROTATE Plus1) = Inr packed_state"
proof -
  have wf: "wf_board (board wall_state)" by code_simp
  have r: "0 \<le> rotation (current wall_state)" by code_simp
  have p: "status wall_state = Playing" by code_simp
  have k: "spec_kicks KeyT 1 2 = [(0, 0), (1, 0), (1, - 1), (0, 2), (1, 2)]" by code_simp
  have c: "collides (board wall_state) (current wall_state) (Some (- 1, 5)) (Some 2) = Inr True"
    "collides (board wall_state) (current wall_state) (Some (0, 5)) (Some 2) = Inr False"
    by code_simp+
  have sp: "spec_rotate wall_state Plus1 = kicked_state" by code_simp
  from rotate_resolution [OF wf r, of zero_entropy Plus1] p sp
  have a: "reducer zero_entropy wall_state (ROTATE Plus1) = Inr kicked_state" by simp
  have wf': "wf_board (board (wall_state\<lparr>status := Paused\<rparr>))" using wf by simp
  have r': "0 \<le> rotation (current (wall_state\<lparr>status := Paused\<rparr>))" using r by simp
  from rotate_resolution [OF wf' r', of zero_entropy Plus1]
  have b: "reducer zero_entropy (wall_state\<lparr>status := Paused\<rparr>) (ROTATE Plus1)
     = Inr (wall_state\<lparr>status := Paused\<rparr>)" by simp
  have wfp: "wf_board (board packed_state)" by code_simp
  have rp: "0 \<le> rotation (current packed_state)" by code_simp
  have pp: "status packed_state = Playing" by code_simp
  have fp: "find (\<lambda>k. collides (board packed_state) (current packed_state)
                  (Some (3 + fst k, 20 + snd k)) (Some 1) = Inr False) (spec_kicks KeyI 0 1) = None"
    by code_simp
  have spp: "spec_rotate packed_state Plus1 = packed_state" by code_simp
  from rotate_resolution [OF wfp rp, of zero_entropy Plus1] pp spp
  have e: "reducer zero_entropy packed_state (ROTATE Plus1) = Inr packed_state" by simp
  from wf r p k c sp a b wfp rp pp fp e show ?thesis by simp
qed

section \<open>Scoring of a clearing lock\<close>

text \<open>The score of an outcome; a fault has none.\<close>

definition score_of :: "fault + GameState \<Rightarrow> int option" where
  "score_of r = (case r of Inl e \<Rightarrow> None | Inr s \<Rightarrow> Some (score s))"

text \<open>
  The score delta of a clearing lock as the code computes it: the combo bonus is added to
  the base score, the sum is multiplied by the level, and the hard-drop bonus comes on top.
\<close>

definition lock_delta :: "nat \<Rightarrow> int \<Rightarrow> int \<Rightarrow> int \<Rightarrow> int" where
  "lock_delta n cmb lvl dropped =
     (SCORES ! n + (if cmb > 0 then 50 * cmb else 0)) * lvl + 2 * dropped"

text \<open>
  The delta as claim C2 words it: the base score is multiplied by the level and the combo
  bonus is added after.
\<close>

definition claimed_delta :: "nat \<Rightarrow> int \<Rightarrow> int \<Rightarrow> int \<Rightarrow> int" where
  "claimed_delta n cmb lvl dropped =
     SCORES ! n * lvl + (if cmb > 0 then 50 * cmb else 0) + 2 * dropped"

text \<open>
  Concrete playing states about to lock: a board whose rows from \<open>first_row\<close> down are
  full except for the gap columns, and a piece that fills the gaps.
\<close>

definition well_board :: "nat \<Rightarrow> nat list \<Rightarrow> Board" where
  "well_board first_row gaps =
     map (\<lambda>y. if first_row \<le> y
               then map (\<lambda>x. if x \<in> set gaps then None else locked_cell KeyJ) [0..<10]
               else replicate 10 None) [0..<22]"

definition scored_state :: "Board \<Rightarrow> ActivePiece \<Rightarrow> int \<Rightarrow> int \<Rightarrow> GameState" where
  "scored_state b p ls cmb =
     (demo_state b p all_kinds)\<lparr>lines := ls, level := calculateLevel ls, combo := cmb\<rparr>"

definition single_state :: "int \<Rightarrow> int \<Rightarrow> int \<Rightarrow> GameState" where
  "single_state py ls cmb = scored_state (well_board 21 [3, 4, 5, 6]) (demo_piece KeyI 3 py) ls cmb"

definition double_state :: GameState where
  "double_state = scored_state (well_board 20 [4, 5]) (demo_piece KeyO 3 20) 0 (- 1)"

definition triple_state :: GameState where
  "triple_state = scored_state (well_board 19 [5])
     \<lparr>piece_type = KeyI, rotation = 1, position = (3, 18)\<rparr> 0 (- 1)"

definition quad_state :: GameState where
  "quad_state = scored_state (well_board 18 [5])
     \<lparr>piece_type = KeyI, rotation = 1, position = (3, 18)\<rparr> 0 (- 1)"

definition single_merged :: Board where
  "single_merged =
     EMPTY_BOARD[21 := [locked_cell KeyJ, locked_cell KeyJ, locked_cell KeyJ,
                        locked_cell KeyI, locked_cell KeyI, locked_cell KeyI, locked_cell KeyI,
                        locked_cell KeyJ, locked_cell KeyJ, locked_cell KeyJ]]"

definition merged_of :: "GameState \<Rightarrow> Board" where
  "merged_of s = (case mergePiece (board s) (current s) of Inl e \<Rightarrow> [] | Inr b \<Rightarrow> b)"

lemma scores_at_table:
  "1 \<le> n \<Longrightarrow> n \<le> 4 \<Longrightarrow> scores_at n = Some (SCORES ! n)"
  by (simp add: scores_at_def SCORES_def)

lemma tick_clearing_score:
  assumes "status s = Playing"
    and "collides (board s) (current s)
            (Some (fst (position (current s)), snd (position (current s)) + 1)) None = Inr True"
    and "mergePiece (board s) (current s) = Inr merged"
    and "n = length (findFullLines merged)" and "1 \<le> n" and "n \<le> 4"
  shows "score_of (reducer g s TICK) =
           Some (score s + (SCORES ! n + (if combo s + 1 > 0 then 50 * (combo s + 1) else 0))
                             * calculateLevel (lines s + int n))"
proof -
  from assms have ne: "findFullLines merged \<noteq> []" by auto
  from assms have sc: "scores_at (length (findFullLines merged)) = Some (SCORES ! n)"
    using scores_at_table by simp
  show ?thesis
    using assms(1-4) ne sc by (simp add: Let_def score_of_def mult.commute)
qed

lemma hard_drop_clearing_score:
  assumes "status s = Playing"
    and "drop_loop (board s) (current s) 0 = Inr d"
    and "mergePiece (board s)
            ((current s)\<lparr>position := (fst (position (current s)),
                                       snd (position (current s)) + d)\<rparr>) = Inr merged"
    and "n = length (findFullLines merged)" and "1 \<le> n" and "n \<le> 4"
  shows "score_of (reducer g s HARD_DROP) =
           Some (score s + ((SCORES ! n + (if combo s + 1 > 0 then 50 * (combo s + 1) else 0))
                             * calculateLevel (lines s + int n) + 2 * d))"
proof -
  from assms have ne: "findFullLines merged \<noteq> []" by auto
  from assms have sc: "scores_at (length (findFullLines merged)) = Some (SCORES ! n)"
    using scores_at_table by simp
  show ?thesis
    using assms(1-4) ne sc by (simp add: Let_def score_of_def mult.commute)
qed

text \<open>
  C2 (score delta on a clearing lock), amended. For a lock in a playing state that
  completes \<open>n\<close> rows, \<open>1 \<le> n \<le> 4\<close>, the score grows by
  \<open>(SCORES[n] + combo bonus) * level + 2 * drop distance\<close>: the combo bonus is
  \<open>50 * combo\<close> when the incremented combo counter is positive, the level is computed
  from the lines cleared so far plus \<open>n\<close>, and the drop distance is 0 for TICK and the
  result of the drop loop for HARD_DROP.
\<close>

theorem lock_score_delta:
  assumes "status s = Playing"
    and "n = length (findFullLines merged)" and "1 \<le> n" and "n \<le> 4"
  shows "(collides (board s) (current s)
            (Some (fst (position (current s)), snd (position (current s)) + 1)) None = Inr True \<and>
          mergePiece (board s) (current s) = Inr merged
            \<longrightarrow> score_of (reducer g s TICK) =
                  Some (score s + lock_delta n (combo s + 1) (calculateLevel (lines s + int n)) 0)) \<and>
         (drop_loop (board s) (current s) 0 = Inr d \<and>
          mergePiece (board s)
            ((current s)\<lparr>position := (fst (position (current s)),
                                       snd (position (current s)) + d)\<rparr>) = Inr merged
            \<longrightarrow> score_of (reducer g s HARD_DROP) =
                  Some (score s + lock_delta n (combo s + 1) (calculateLevel (lines s + int n)) d))"
proof (intro conjI impI)
  assume "collides (board s) (current s)
            (Some (fst (position (current s)), snd (position (current s)) + 1)) None = Inr True \<and>
          mergePiece (board s) (current s) = Inr merged"
  then show "score_of (reducer g s TICK) =
       Some (score s + lock_delta n (combo s + 1) (calculateLevel (lines s + int n)) 0)"
    using tick_clearing_score [OF assms(1) _ _ assms(2-4), of g]
    by (simp add: lock_delta_def)
next
  assume "drop_loop (board s) (current s) 0 = Inr d \<and>
          mergePiece (board s)
            ((current s)\<lparr>position := (fst (position (current s)),
                                       snd (position (current s)) + d)\<rparr>) = Inr merged"
  then show "score_of (reducer g s HARD_DROP) =
       Some (score s + lock_delta n (combo s + 1) (calculateLevel (lines s + int n)) d)"
    using hard_drop_clearing_score [OF assms(1) _ _ assms(2-4), of d g]
    by (simp add: lock_delta_def)
qed

theorem lock_score_delta_witness:
  "status (single_state 20 10 0) = Playing \<and>
   collides (board (single_state 20 10 0)) (current (single_state 20 10 0)) (Some (3, 21)) None
     = Inr True \<and>
   mergePiece (board (single_state 20 10 0)) (current (single_state 20 10 0)) = Inr single_merged \<and>
   length (findFullLines single_merged) = 1 \<and>
   lock_delta 1 1 2 0 = 300 \<and>
   score_of (reducer zero_entropy (single_state 20 10 0) TICK) = Some 300 \<and>
   drop_loop (board (single_state 0 10 0)) (current (single_state 0 10 0)) 0 = Inr 20 \<and>
   lock_delta 1 1 2 20 = 340 \<and>
   score_of (reducer zero_entropy (single_state 0 10 0) HARD_DROP) = Some 340"
proof -
  let ?s = "single_state 20 10 0" and ?h = "single_state 0 10 0"
  have p: "status ?s = Playing" "status ?h = Playing" by code_simp+
  have n: "1 = length (findFullLines single_merged)" by code_simp
  have c: "collides (board ?s) (current ?s) (Some (3, 21)) None = Inr True" by code_simp
  have m: "mergePiece (board ?s) (current ?s) = Inr single_merged" by code_simp
  have d: "drop_loop (board ?h) (current ?h) 0 = Inr 20" by code_simp
  have mh: "mergePiece (board ?h) ((current ?h)\<lparr>position := (3, 20)\<rparr>) = Inr single_merged"
    by code_simp
  have f: "fst (position (current ?s)) = 3" "snd (position (current ?s)) = 20"
    "fst (position (current ?h)) = 3" "snd (position (current ?h)) = 0"
    "score ?s = 0" "score ?h = 0" "combo ?s = 0" "combo ?h = 0" "lines ?s = 10" "lines ?h = 10"
    by code_simp+
  have l: "calculateLevel 11 = 2" "lock_delta 1 1 2 0 = 300" "lock_delta 1 1 2 20 = 340"
    by code_simp+
  from lock_score_delta [OF p(1) n, of zero_entropy 0] c m f l
  have a: "score_of (reducer zero_entropy ?s TICK) = Some 300" by simp
  from lock_score_delta [OF p(2) n, of zero_entropy 20] d mh f l
  have b: "score_of (reducer zero_entropy ?h HARD_DROP) = Some 340" by simp
  from p c m n d l a b show ?thesis by simp
qed

text \<open>
  C2 as stated fails: with ten lines cleared and the combo counter at 0, a TICK lock that
  completes one row scores \<open>(100 + 50) * 2 = 300\<close>, where the claimed formula gives
  \<open>100 * 2 + 50 = 250\<close>.
\<close>

theorem lock_score_delta_counterexample:
  "score_of (reducer zero_entropy (single_state 20 10 0) TICK)
     = Some (score (single_state 20 10 0) + 300) \<and>
   claimed_delta 1 (combo (single_state 20 10 0) + 1) (calculateLevel (10 + 1)) 0 = 250 \<and>
   score_of (reducer zero_entropy (single_state 20 10 0) TICK)
     \<noteq> Some (score (single_state 20 10 0) +
              claimed_delta 1 (combo (single_state 20 10 0) + 1) (calculateLevel (10 + 1)) 0)"
  by code_simp

text \<open>
  C3 (score exactness at level 1), amended. For a TICK lock in a playing state that
  completes \<open>n\<close> rows: when the combo counter is at its sentinel \<open>-1\<close> and the level the lock
  computes (from the lines cleared so far plus \<open>n\<close>) is 1, the score grows by exactly
  100, 300, 500, 800 for \<open>n\<close> = 1, 2, 3, 4; and when the lock follows one clearing lock
  (combo counter 0 on entry, 1 when scored) the score grows by
  \<open>(SCORES[n] + 50) * level\<close>, the 50 inside the product.
\<close>

theorem score_exactness:
  assumes "status s = Playing"
    and "collides (board s) (current s)
            (Some (fst (position (current s)), snd (position (current s)) + 1)) None = Inr True"
    and "mergePiece (board s) (current s) = Inr merged"
    and "n = length (findFullLines merged)"
  shows "(combo s = - 1 \<and> calculateLevel (lines s + int n) = 1 \<longrightarrow>
            (n = 1 \<longrightarrow> score_of (reducer g s TICK) = Some (score s + 100)) \<and>
            (n = 2 \<longrightarrow> score_of (reducer g s TICK) = Some (score s + 300)) \<and>
            (n = 3 \<longrightarrow> score_of (reducer g s TICK) = Some (score s + 500)) \<and>
            (n = 4 \<longrightarrow> score_of (reducer g s TICK) = Some (score s + 800))) \<and>
         (combo s = 0 \<and> 1 \<le> n \<and> n \<le> 4 \<longrightarrow>
            score_of (reducer g s TICK) =
              Some (score s + (SCORES ! n + 50) * calculateLevel (lines s + int n)))"
proof (intro conjI impI)
  assume a: "combo s = - 1 \<and> calculateLevel (lines s + int n) = 1"
  { assume "n = 1"
    with a tick_clearing_score [OF assms, of g]
    show "score_of (reducer g s TICK) = Some (score s + 100)" by (simp add: SCORES_def) }
  { assume "n = 2"
    with a tick_clearing_score [OF assms, of g]
    show "score_of (reducer g s TICK) = Some (score s + 300)" by (simp add: SCORES_def) }
  { assume "n = 3"
    with a tick_clearing_score [OF assms, of g]
    show "score_of (reducer g s TICK) = Some (score s + 500)" by (simp add: SCORES_def) }
  { assume "n = 4"
    with a tick_clearing_score [OF assms, of g]
    show "score_of (reducer g s TICK) = Some (score s + 800)" by (simp add: SCORES_def) }
next
  assume "combo s = 0 \<and> 1 \<le> n \<and> n \<le> 4"
  with tick_clearing_score [OF assms, of g]
  show "score_of (reducer g s TICK) =
      Some (score s + (SCORES ! n + 50) * calculateLevel (lines s + int n))"
    by simp
qed

theorem score_exactness_witness:
  "status (single_state 20 0 (- 1)) = Playing \<and>
   combo (single_state 20 0 (- 1)) = - 1 \<and> combo double_state = - 1 \<and>
   combo triple_state = - 1 \<and> combo quad_state = - 1 \<and> combo (single_state 20 0 0) = 0 \<and>
   length (findFullLines (merged_of (single_state 20 0 (- 1)))) = 1 \<and>
   length (findFullLines (merged_of double_state)) = 2 \<and>
   length (findFullLines (merged_of triple_state)) = 3 \<and>
   length (findFullLines (merged_of quad_state)) = 4 \<and>
   score_of (reducer zero_entropy (single_state 20 0 (- 1)) TICK) = Some 100 \<and>
   score_of (reducer zero_entropy double_state TICK) = Some 300 \<and>
   score_of (reducer zero_entropy triple_state TICK) = Some 500 \<and>
   score_of (reducer zero_entropy quad_state TICK) = Some 800 \<and>
   score_of (reducer zero_entropy (single_state 20 0 0) TICK) = Some 150"
proof -
  have r1: "score_of (reducer zero_entropy (single_state 20 0 (- 1)) TICK) = Some 100"
  proof -
    let ?s = "single_state 20 0 (- 1)"
    have p: "status ?s = Playing" by code_simp
    have c: "collides (board ?s) (current ?s)
        (Some (fst (position (current ?s)), snd (position (current ?s)) + 1)) None = Inr True"
      by code_simp
    have m: "mergePiece (board ?s) (current ?s) = Inr (merged_of ?s)" by code_simp
    have n: "1 = length (findFullLines (merged_of ?s))" by code_simp
    have f: "combo ?s = - 1" "calculateLevel (lines ?s + int 1) = 1" "score ?s = 0"
      "SCORES ! 1 = 100"
      by code_simp+
    from score_exactness [OF p c m n, of zero_entropy] f show ?thesis by simp
  qed
  have r2: "score_of (reducer zero_entropy double_state TICK) = Some 300"
  proof -
    let ?s = "double_state"
    have p: "status ?s = Playing" by code_simp
    have c: "collides (board ?s) (current ?s)
        (Some (fst (position (current ?s)), snd (position (current ?s)) + 1)) None = Inr True"
      by code_simp
    have m: "mergePiece (board ?s) (current ?s) = Inr (merged_of ?s)" by code_simp
    have n: "2 = length (findFullLines (merged_of ?s))" by code_simp
    have f: "combo ?s = - 1" "calculateLevel (lines ?s + int 2) = 1" "score ?s = 0"
      "SCORES ! 2 = 300"
      by code_simp+
    from score_exactness [OF p c m n, of zero_entropy] f show ?thesis by simp
  qed
  have r3: "score_of (reducer zero_entropy triple_state TICK) = Some 500"
  proof -
    let ?s = "triple_state"
    have p: "status ?s = Playing" by code_simp
    have c: "collides (board ?s) (current ?s)
        (Some (fst (position (current ?s)), snd (position (current ?s)) + 1)) None = Inr True"
      by code_simp
    have m: "mergePiece (board ?s) (current ?s) = Inr (merged_of ?s)" by code_simp
    have n: "3 = length (findFullLines (merged_of ?s))" by code_simp
    have f: "combo ?s = - 1" "calculateLevel (lines ?s + int 3) = 1" "score ?s = 0"
      "SCORES ! 3 = 500"
      by code_simp+
    from score_exactness [OF p c m n, of zero_entropy] f show ?thesis by simp
  qed
  have r4: "score_of (reducer zero_entropy quad_state TICK) = Some 800"
  proof -
    let ?s = "quad_state"
    have p: "status ?s = Playing" by code_simp
    have c: "collides (board ?s) (current ?s)
        (Some (fst (position (current ?s)), snd (position (current ?s)) + 1)) None = Inr True"
      by code_simp
    have m: "mergePiece (board ?s) (current ?s) = Inr (merged_of ?s)" by code_simp
    have n: "4 = length (findFullLines (merged_of ?s))" by code_simp
    have f: "combo ?s = - 1" "calculateLevel (lines ?s + int 4) = 1" "score ?s = 0"
      "SCORES ! 4 = 800"
      by code_simp+
    from score_exactness [OF p c m n, of zero_entropy] f show ?thesis by simp
  qed
  have r5: "score_of (reducer zero_entropy (single_state 20 0 0) TICK) = Some 150"
  proof -
    let ?s = "single_state 20 0 0"
    have p: "status ?s = Playing" by code_simp
    have c: "collides (board ?s) (current ?s)
        (Some (fst (position (current ?s)), snd (position (current ?s)) + 1)) None = Inr True"
      by code_simp
    have m: "mergePiece (board ?s) (current ?s) = Inr (merged_of ?s)" by code_simp
    have n: "1 = length (findFullLines (merged_of ?s))" by code_simp
    have f: "combo ?s = 0" "calculateLevel (lines ?s + int 1) = 1" "score ?s = 0"
      "SCORES ! 1 = 100"
      by code_simp+
    from score_exactness [OF p c m n, of zero_entropy] f show ?thesis by simp
  qed
  have h: "status (single_state 20 0 (- 1)) = Playing"
    "combo (single_state 20 0 (- 1)) = - 1" "combo double_state = - 1"
    "combo triple_state = - 1" "combo quad_state = - 1" "combo (single_state 20 0 0) = 0"
    "length (findFullLines (merged_of (single_state 20 0 (- 1)))) = 1"
    "length (findFullLines (merged_of double_state)) = 2"
    "length (findFullLines (merged_of triple_state)) = 3"
    "length (findFullLines (merged_of quad_state)) = 4"
    by code_simp+
  from h r1 r2 r3 r4 r5 show ?thesis by simp
qed

text \<open>
  C3 as stated fails when the level is read off the state: with nine lines cleared the
  state's level is 1 and the combo counter is at its sentinel, yet a TICK lock that
  completes one row scores 200, because the lock multiplies by the level of ten lines.
\<close>

theorem score_exactness_counterexample:
  "status (single_state 20 9 (- 1)) = Playing \<and>
   level (single_state 20 9 (- 1)) = 1 \<and>
   lines (single_state 20 9 (- 1)) = 9 \<and>
   combo (single_state 20 9 (- 1)) = - 1 \<and>
   collides (board (single_state 20 9 (- 1))) (current (single_state 20 9 (- 1)))
     (Some (3, 21)) None = Inr True \<and>
   length (findFullLines (merged_of (single_state 20 9 (- 1)))) = 1 \<and>
   score_of (reducer zero_entropy (single_state 20 9 (- 1)) TICK)
     = Some (score (single_state 20 9 (- 1)) + 200) \<and>
   score_of (reducer zero_entropy (single_state 20 9 (- 1)) TICK)
     \<noteq> Some (score (single_state 20 9 (- 1)) + 100)"
  by code_simp

end
